theory Spec2Isabelle
  imports Complex_Main
begin

section \<open>JavaScript values and the host\<close>

text \<open>
  The events route (the third handler of \<^verbatim>\<open>src/unnamed/part_001\<close>, lines 191-408) is
  embedded as a function \<open>GET\<close> of the host it runs on, its environment, the query of the
  request and the cache. This section holds what the handler takes from the language:
  numbers, JSON values, strings and the \<^verbatim>\<open>Date\<close> arithmetic of ECMA-262.

  A number is \<open>NaN\<close>, an infinity or a finite value (held exactly, as a rational; time
  values are integers far below \<open>2^53\<close>, where doubles are exact). A string is the list of
  its code units, here the code units below 256. A value that may be \<^verbatim>\<open>undefined\<close> is an
  \<open>option\<close>; an exception is a value of \<open>jserror\<close>, and an operation that can throw
  returns a sum whose left side is the exception.
\<close>

datatype jsnum = NaN | PInf | NInf | Fin rat

datatype json =
    JNull
  | JBool bool
  | JNum jsnum
  | JStr string
  | JArr "json list"
  | JObj "(string \<times> json) list"

datatype jserror = RangeError | TypeError | SyntaxError | FetchRejected

text \<open>The time value of a \<^verbatim>\<open>Date\<close>, in milliseconds since the epoch; \<open>None\<close> is the
  time value \<^verbatim>\<open>NaN\<close> of an invalid date.\<close>

type_synonym tv = "int option"

text \<open>
  What the host decides and the repository does not: the number and the text that
  \<^verbatim>\<open>ToNumber\<close> and \<^verbatim>\<open>ToString\<close> give for a value they convert, \<^verbatim>\<open>Date.parse\<close> (ECMA-262
  fixes it on the ISO format only) and the time zone, as the map \<^verbatim>\<open>UTC(t)\<close> from a local
  time value to its instant. The handler is a function of them, and the general theorems
  hold for every host.
\<close>

record platform =
  toNumber :: "json \<Rightarrow> jsnum"
  toStringOf :: "json \<Rightarrow> string"
  dateParse :: "string \<Rightarrow> tv"
  utcOfLocal :: "int \<Rightarrow> int"

text \<open>
  Which values convert is fixed by the language (\<^verbatim>\<open>OrdinaryToPrimitive\<close>). The values here
  come from \<^verbatim>\<open>JSON.parse\<close>: a plain object converts through the inherited
  \<^verbatim>\<open>Object.prototype.toString\<close>, unless it has a property \<^verbatim>\<open>toString\<close> of its own, which is
  data and cannot be called; then neither \<^verbatim>\<open>valueOf\<close> nor \<^verbatim>\<open>toString\<close> gives a primitive
  and the conversion throws a \<^verbatim>\<open>TypeError\<close>. An array converts through \<^verbatim>\<open>join\<close>, which
  converts each element (\<^verbatim>\<open>null\<close> becomes the empty text). Every other value converts.
\<close>

fun unconvertible :: "json \<Rightarrow> bool" where
  "unconvertible (JObj kvs) = (''toString'' \<in> fst ` set kvs)"
| "unconvertible (JArr xs) = list_ex unconvertible xs"
| "unconvertible v = False"

definition Number_js :: "platform \<Rightarrow> string \<Rightarrow> jsnum" where
  \<comment> \<open>\<^verbatim>\<open>Number(s)\<close> of a string\<close>
  "Number_js pf s = toNumber pf (JStr s)"

definition ToNumber_js :: "platform \<Rightarrow> json \<Rightarrow> jserror + jsnum" where
  \<comment> \<open>\<^verbatim>\<open>Number(v)\<close>, and the operand conversion of \<^verbatim>\<open>-\<close>, for any value\<close>
  "ToNumber_js pf v = (if unconvertible v then Inl TypeError else Inr (toNumber pf v))"

definition String_js :: "platform \<Rightarrow> json \<Rightarrow> jserror + string" where
  \<comment> \<open>\<^verbatim>\<open>ToString\<close>: a string is itself\<close>
  "String_js pf v =
     (case v of
        JStr s \<Rightarrow> Inr s
      | _ \<Rightarrow> if unconvertible v then Inl TypeError else Inr (toStringOf pf v))"

fun jsSub :: "jsnum \<Rightarrow> jsnum \<Rightarrow> jsnum" where
  "jsSub (Fin a) (Fin b) = Fin (a - b)"
| "jsSub NaN _ = NaN"
| "jsSub _ NaN = NaN"
| "jsSub PInf PInf = NaN"
| "jsSub NInf NInf = NaN"
| "jsSub PInf _ = PInf"
| "jsSub NInf _ = NInf"
| "jsSub _ PInf = NInf"
| "jsSub _ NInf = PInf"

definition truthy :: "json \<Rightarrow> bool" where
  "truthy v = (case v of
      JNull \<Rightarrow> False
    | JBool b \<Rightarrow> b
    | JNum n \<Rightarrow> n \<noteq> NaN \<and> n \<noteq> Fin 0
    | JStr s \<Rightarrow> s \<noteq> []
    | JArr _ \<Rightarrow> True
    | JObj _ \<Rightarrow> True)"

definition truthyOpt :: "json option \<Rightarrow> bool" where
  "truthyOpt v = (case v of None \<Rightarrow> False | Some x \<Rightarrow> truthy x)"

subsection \<open>Strings\<close>

definition isDigit :: "char \<Rightarrow> bool" where
  "isDigit c = (c \<in> set ''0123456789'')"

definition isWs :: "char \<Rightarrow> bool" where
  \<comment> \<open>white space and line terminators among the code units below 256\<close>
  "isWs c = (of_char c \<in> set [9, 10, 11, 12, 13, 32, 160 :: nat])"

definition trim :: "string \<Rightarrow> string" where
  "trim s = rev (dropWhile isWs (rev (dropWhile isWs s)))"

fun splitDash :: "string \<Rightarrow> string list" where
  \<comment> \<open>\<^verbatim>\<open>s.split("-")\<close>\<close>
  "splitDash [] = [[]]"
| "splitDash (c # cs) =
     (if c = CHR ''-'' then [] # splitDash cs
      else (case splitDash cs of p # ps \<Rightarrow> (c # p) # ps | [] \<Rightarrow> [[c]]))"

fun nth_opt :: "'a list \<Rightarrow> nat \<Rightarrow> 'a option" where
  \<comment> \<open>\<^verbatim>\<open>xs[i]\<close>: \<^verbatim>\<open>undefined\<close> out of range\<close>
  "nth_opt [] i = None"
| "nth_opt (x # xs) 0 = Some x"
| "nth_opt (x # xs) (Suc i) = nth_opt xs i"

definition decimalValue :: "string \<Rightarrow> nat" where
  \<comment> \<open>the number a string of decimal digits spells\<close>
  "decimalValue s = foldl (\<lambda>n c. 10 * n + (of_char c - 48)) 0 s"

definition isYMD :: "string \<Rightarrow> bool" where
  \<comment> \<open>\<^verbatim>\<open>/^\d{4}-\d{2}-\d{2}$/.test(s)\<close>\<close>
  "isYMD s = (length s = 10 \<and> list_all isDigit (take 4 s) \<and> s ! 4 = CHR ''-''
     \<and> list_all isDigit (take 2 (drop 5 s)) \<and> s ! 7 = CHR ''-''
     \<and> list_all isDigit (drop 8 s))"

subsection \<open>Date arithmetic (ECMA-262, 21.4.1)\<close>

definition msPerDay :: int where
  "msPerDay = 86400000"

definition DaysInYear :: "int \<Rightarrow> int" where
  "DaysInYear y = (if (y mod 4 = 0 \<and> y mod 100 \<noteq> 0) \<or> y mod 400 = 0 then 366 else 365)"

definition DayFromYear :: "int \<Rightarrow> int" where
  "DayFromYear y = 365 * (y - 1970) + (y - 1969) div 4 - (y - 1901) div 100 + (y - 1601) div 400"

definition monthStart :: "int \<Rightarrow> int \<Rightarrow> int" where
  \<comment> \<open>the day within year \<open>y\<close> on which month \<open>mn\<close> (0 to 11) starts\<close>
  "monthStart y mn =
     (let leap = (if DaysInYear y = 366 then 1 else 0) in
      if mn = 0 then 0 else if mn = 1 then 31
      else if mn = 2 then 59 + leap else if mn = 3 then 90 + leap
      else if mn = 4 then 120 + leap else if mn = 5 then 151 + leap
      else if mn = 6 then 181 + leap else if mn = 7 then 212 + leap
      else if mn = 8 then 243 + leap else if mn = 9 then 273 + leap
      else if mn = 10 then 304 + leap else 334 + leap)"

definition MakeDay :: "int \<Rightarrow> int \<Rightarrow> int \<Rightarrow> int" where
  "MakeDay y m dt =
     (let ym = y + m div 12; mn = m mod 12
      in DayFromYear ym + monthStart ym mn + dt - 1)"

definition MakeTime :: "int \<Rightarrow> int \<Rightarrow> int \<Rightarrow> int \<Rightarrow> int" where
  "MakeTime h mi s ms = h * 3600000 + mi * 60000 + s * 1000 + ms"

definition MakeDate :: "int \<Rightarrow> int \<Rightarrow> int" where
  "MakeDate day time = day * msPerDay + time"

definition TimeClip :: "int \<Rightarrow> tv" where
  "TimeClip t = (if \<bar>t\<bar> > 8640000000000000 then None else Some t)"

definition toInteger :: "rat \<Rightarrow> int" where
  \<comment> \<open>\<^verbatim>\<open>ToIntegerOrInfinity\<close> of a finite number: towards zero\<close>
  "toInteger r = (if 0 \<le> r then \<lfloor>r\<rfloor> else \<lceil>r\<rceil>)"

definition newDate :: "platform \<Rightarrow> jsnum \<Rightarrow> jsnum \<Rightarrow> jsnum \<Rightarrow> int \<Rightarrow> int \<Rightarrow> int \<Rightarrow> int \<Rightarrow> tv" where
  \<comment> \<open>\<^verbatim>\<open>new Date(y, m, d, h, mi, s, ms).getTime()\<close>: local time; a year from 0 to 99 is
      taken in the 1900s; a component that is not finite gives an invalid date\<close>
  "newDate pf y m d h mi s ms =
     (case (y, m, d) of
        (Fin yr, Fin mr, Fin dr) \<Rightarrow>
          (let yi = toInteger yr;
               yfull = (if 0 \<le> yi \<and> yi \<le> 99 then 1900 + yi else yi)
           in TimeClip (utcOfLocal pf
                (MakeDate (MakeDay yfull (toInteger mr) (toInteger dr)) (MakeTime h mi s ms))))
      | _ \<Rightarrow> None)"

section \<open>The date helpers of the route\<close>

text \<open>
  The ISO-8601 text that \<open>toIsoNoMs\<close> writes (\<^verbatim>\<open>toISOString()\<close> without its milliseconds) is
  represented by the instant it spells, a multiple of 1000: \<^verbatim>\<open>new Date(iso).getTime()\<close> reads
  that instant back, two such texts are equal exactly when their instants are, and the
  handler uses the text in no other way. \<^verbatim>\<open>toISOString\<close> throws a \<^verbatim>\<open>RangeError\<close> on an
  invalid date.
\<close>

type_synonym iso = int

definition toIsoNoMs :: "tv \<Rightarrow> jserror + iso" where
  "toIsoNoMs d = (case d of None \<Rightarrow> Inl RangeError | Some t \<Rightarrow> Inr ((t div 1000) * 1000))"

definition orElse :: "'a option \<Rightarrow> 'a \<Rightarrow> 'a" where
  \<comment> \<open>\<^verbatim>\<open>x ?? d\<close>\<close>
  "orElse x d = (case x of None \<Rightarrow> d | Some v \<Rightarrow> v)"

definition ymdToLocalStart :: "platform \<Rightarrow> string \<Rightarrow> tv" where
  "ymdToLocalStart pf s =
     (let ps = map (Number_js pf) (splitDash s);
          y = nth_opt ps 0; m = nth_opt ps 1; d = nth_opt ps 2
      in newDate pf (orElse y NaN) (jsSub (orElse m (Fin 1)) (Fin 1)) (orElse d (Fin 1)) 0 0 0 0)"

definition ymdToLocalEnd :: "platform \<Rightarrow> string \<Rightarrow> tv" where
  "ymdToLocalEnd pf s =
     (let ps = map (Number_js pf) (splitDash s);
          y = nth_opt ps 0; m = nth_opt ps 1; d = nth_opt ps 2
      in newDate pf (orElse y NaN) (jsSub (orElse m (Fin 1)) (Fin 1)) (orElse d (Fin 1)) 23 59 59 999)"

definition startIsoFromYMD :: "platform \<Rightarrow> int \<Rightarrow> string option \<Rightarrow> jserror + iso" where
  \<comment> \<open>\<open>now\<close> is the clock read by \<^verbatim>\<open>new Date()\<close>; an absent or empty \<open>s\<close> is falsy\<close>
  "startIsoFromYMD pf now s =
     (case s of
        Some (c # cs) \<Rightarrow> toIsoNoMs (ymdToLocalStart pf (c # cs))
      | _ \<Rightarrow> toIsoNoMs (Some now))"

definition endIsoFromYMD :: "platform \<Rightarrow> string option \<Rightarrow> jserror + iso option" where
  "endIsoFromYMD pf s =
     (case s of
        Some (c # cs) \<Rightarrow>
          (case toIsoNoMs (ymdToLocalEnd pf (c # cs)) of Inl e \<Rightarrow> Inl e | Inr t \<Rightarrow> Inr (Some t))
      | _ \<Rightarrow> Inr None)"

definition MAX_WINDOW_MS :: int where
  "MAX_WINDOW_MS = 1000 * 60 * 60 * 24 * 180"

definition swapWindow :: "iso \<Rightarrow> iso option \<Rightarrow> iso \<times> iso option" where
  \<comment> \<open>lines 281-285: keep start \<open>\<le>\<close> end\<close>
  "swapWindow startISO endISO =
     (case endISO of
        Some e \<Rightarrow> if startISO > e then (e, Some startISO) else (startISO, Some e)
      | None \<Rightarrow> (startISO, None))"

definition capWindow :: "iso \<Rightarrow> iso option \<Rightarrow> jserror + iso \<times> iso option" where
  \<comment> \<open>lines 286-292: cap the window to 180 days\<close>
  "capWindow startISO endISO =
     (case endISO of
        None \<Rightarrow> Inr (startISO, None)
      | Some e \<Rightarrow>
          if e - startISO > MAX_WINDOW_MS
          then (case toIsoNoMs (TimeClip (startISO + MAX_WINDOW_MS)) of
                  Inl err \<Rightarrow> Inl err
                | Inr e' \<Rightarrow> Inr (startISO, Some e'))
          else Inr (startISO, Some e))"

definition dateWindow :: "platform \<Rightarrow> int \<Rightarrow> string option \<Rightarrow> string option \<Rightarrow> jserror + iso \<times> iso option" where
  \<comment> \<open>lines 277-292 of \<open>GET\<close>: the resolved window \<open>(startISO, endISO)\<close>\<close>
  "dateWindow pf now fromS toS =
     (case startIsoFromYMD pf now fromS of
        Inl e \<Rightarrow> Inl e
      | Inr s0 \<Rightarrow>
          (case endIsoFromYMD pf toS of
             Inl e \<Rightarrow> Inl e
           | Inr e0 \<Rightarrow> (case swapWindow s0 e0 of (s1, e1) \<Rightarrow> capWindow s1 e1)))"

section \<open>Query validation\<close>

text \<open>
  The query is the list of decoded name/value pairs of the URL, in order.
  \<^verbatim>\<open>Object.fromEntries\<close> keeps the last value of a repeated name,
  \<^verbatim>\<open>searchParams.get\<close> reads the first.
\<close>

type_synonym query = "(string \<times> string) list"

definition fromEntries :: "query \<Rightarrow> string \<Rightarrow> string option" where
  "fromEntries qs k = map_of (rev qs) k"

definition searchParam :: "query \<Rightarrow> string \<Rightarrow> string option" where
  "searchParam qs k = map_of qs k"

record searchRequest =
  rq_q :: "string option"
  rq_lat :: "rat option"
  rq_lng :: "rat option"
  rq_radius :: rat
  rq_from :: "string option"
  rq_to :: "string option"
  rq_page :: rat

text \<open>Each field parser returns \<open>None\<close> when the schema raises an issue for the field.\<close>

definition zTrimMax80 :: "string option \<Rightarrow> string option option" where
  \<comment> \<open>\<^verbatim>\<open>z.string().trim().max(80).optional()\<close>\<close>
  "zTrimMax80 v =
     (case v of
        None \<Rightarrow> Some None
      | Some s \<Rightarrow> (let t = trim s in if length t \<le> 80 then Some (Some t) else None))"

definition zCoerceNumber :: "platform \<Rightarrow> rat \<Rightarrow> rat \<Rightarrow> string \<Rightarrow> rat option" where
  \<comment> \<open>\<^verbatim>\<open>z.coerce.number().min(lo).max(hi)\<close>: \<^verbatim>\<open>NaN\<close> is an invalid type, an infinity is out
      of range\<close>
  "zCoerceNumber pf lo hi s =
     (case Number_js pf s of
        Fin r \<Rightarrow> if lo \<le> r \<and> r \<le> hi then Some r else None
      | _ \<Rightarrow> None)"

definition zNumberOptional :: "platform \<Rightarrow> rat \<Rightarrow> rat \<Rightarrow> string option \<Rightarrow> rat option option" where
  "zNumberOptional pf lo hi v =
     (case v of
        None \<Rightarrow> Some None
      | Some s \<Rightarrow> (case zCoerceNumber pf lo hi s of None \<Rightarrow> None | Some r \<Rightarrow> Some (Some r)))"

definition zNumberDefault :: "platform \<Rightarrow> rat \<Rightarrow> rat \<Rightarrow> rat \<Rightarrow> string option \<Rightarrow> rat option" where
  "zNumberDefault pf lo hi dflt v =
     (case v of None \<Rightarrow> Some dflt | Some s \<Rightarrow> zCoerceNumber pf lo hi s)"

definition issue :: "string \<Rightarrow> 'a option \<Rightarrow> string list" where
  "issue field v = (case v of None \<Rightarrow> [field] | Some _ \<Rightarrow> [])"

definition QuerySchema :: "platform \<Rightarrow> query \<Rightarrow> string list + searchRequest" where
  \<comment> \<open>\<^verbatim>\<open>QuerySchema.safeParse(Object.fromEntries(url.searchParams))\<close>: the request, or the
      fields with an issue (the keys of \<^verbatim>\<open>error.flatten().fieldErrors\<close>)\<close>
  "QuerySchema pf qs =
     (let inp = fromEntries qs;
          fq = zTrimMax80 (inp ''q'');
          flat = zNumberOptional pf (-90) 90 (inp ''lat'');
          flng = zNumberOptional pf (-180) 180 (inp ''lng'');
          fradius = zNumberDefault pf 1 1000 25 (inp ''radius'');
          fpage = zNumberDefault pf 0 49 0 (inp ''page'')
      in case (fq, flat, flng, fradius, fpage) of
           (Some q, Some lat, Some lng, Some radius, Some page) \<Rightarrow>
             Inr \<lparr>rq_q = q, rq_lat = lat, rq_lng = lng, rq_radius = radius,
                  rq_from = inp ''from'', rq_to = inp ''to'', rq_page = page\<rparr>
         | _ \<Rightarrow>
             Inl (issue ''q'' fq @ issue ''lat'' flat @ issue ''lng'' flng
                  @ issue ''radius'' fradius @ issue ''page'' fpage))"

section \<open>The upstream query\<close>

text \<open>
  The upstream URL is the base and the parameters set on the \<^verbatim>\<open>URLSearchParams\<close>, in
  order; a value is kept as what the handler wrote it from (a string, a number, the
  \<^verbatim>\<open>lat,lng\<close> pair, an ISO instant).
\<close>

datatype pval = PStr string | PNum rat | PLatLong rat rat | PIso iso

type_synonym urlParams = "(string \<times> pval) list"

type_synonym tmUrl = "string \<times> urlParams"

fun setParam :: "string \<Rightarrow> pval \<Rightarrow> urlParams \<Rightarrow> urlParams" where
  \<comment> \<open>\<^verbatim>\<open>params.set(k, v)\<close>\<close>
  "setParam k v [] = [(k, v)]"
| "setParam k v ((k', v') # ps) =
     (if k' = k then (k, v) # filter (\<lambda>kv. fst kv \<noteq> k) ps else (k', v') # setParam k v ps)"

definition TM_BASE :: string where
  "TM_BASE = ''https://app.ticketmaster.com/discovery/v2/events.json''"

definition buildTmUrl :: "string \<Rightarrow> searchRequest \<Rightarrow> iso \<Rightarrow> iso option \<Rightarrow> tmUrl" where
  \<comment> \<open>lines 305-321\<close>
  "buildTmUrl key rq startISO endISO =
     (let p1 = setParam ''apikey'' (PStr key) [];
          p2 = setParam ''size'' (PStr ''100'') p1;
          p3 = setParam ''page'' (PNum (rq_page rq)) p2;
          p4 = setParam ''sort'' (PStr ''relevance,desc'') p3;
          p5 = setParam ''locale'' (PStr ''*'') p4;
          p6 = (case rq_q rq of Some (c # cs) \<Rightarrow> setParam ''keyword'' (PStr (c # cs)) p5 | _ \<Rightarrow> p5);
          p7 = (case (rq_lat rq, rq_lng rq) of
                  (Some la, Some lo) \<Rightarrow>
                    setParam ''unit'' (PStr ''km'')
                      (setParam ''radius'' (PNum (rq_radius rq))
                        (setParam ''latlong'' (PLatLong la lo) p6))
                | _ \<Rightarrow> p6);
          p8 = setParam ''startDateTime'' (PIso startISO) p7;
          p9 = (case endISO of Some e \<Rightarrow> setParam ''endDateTime'' (PIso e) p8 | None \<Rightarrow> p8)
      in (TM_BASE, p9))"

text \<open>
  What \<^verbatim>\<open>fetch\<close> resolves to: the status, what \<^verbatim>\<open>r.json()\<close> gives (\<open>None\<close>: it rejects,
  the body is not JSON) and what \<^verbatim>\<open>r.text()\<close> gives when it is called after \<^verbatim>\<open>r.json()\<close>
  has rejected (\<open>None\<close>: it rejects too, as it does on a body that was already read).
\<close>

record reply =
  status :: nat
  jsonBody :: "json option"
  textBody :: "string option"

definition r_ok :: "reply \<Rightarrow> bool" where
  "r_ok r = (200 \<le> status r \<and> status r \<le> 299)"

datatype details = DJson json | DText string

section \<open>Normalising the upstream payload\<close>

fun getProp :: "json \<Rightarrow> string \<Rightarrow> json option" where
  \<comment> \<open>\<^verbatim>\<open>v.k\<close> for a \<open>v\<close> that is not \<^verbatim>\<open>null\<close> and a name \<open>k\<close> that no array, string, number or
      boolean has; \<^verbatim>\<open>JSON.parse\<close> keeps the last of a repeated key\<close>
  "getProp (JObj kvs) k = map_of (rev kvs) k"
| "getProp _ k = None"

definition optChain :: "json option \<Rightarrow> string \<Rightarrow> json option" where
  \<comment> \<open>\<^verbatim>\<open>v?.k\<close>\<close>
  "optChain v k = (case v of None \<Rightarrow> None | Some JNull \<Rightarrow> None | Some x \<Rightarrow> getProp x k)"

definition firstOf :: "json option \<Rightarrow> json option" where
  \<comment> \<open>\<^verbatim>\<open>v?.[0]\<close>\<close>
  "firstOf v =
     (case v of
        Some (JArr (x # xs)) \<Rightarrow> Some x
      | Some (JStr (c # cs)) \<Rightarrow> Some (JStr [c])
      | Some (JObj kvs) \<Rightarrow> map_of (rev kvs) ''0''
      | _ \<Rightarrow> None)"

definition coalesce :: "json option \<Rightarrow> json option \<Rightarrow> json option" where
  \<comment> \<open>\<^verbatim>\<open>a ?? b\<close>\<close>
  "coalesce a b = (case a of None \<Rightarrow> b | Some JNull \<Rightarrow> b | Some x \<Rightarrow> Some x)"

fun mapE :: "('a \<Rightarrow> jserror + 'b) \<Rightarrow> 'a list \<Rightarrow> jserror + 'b list" where
  "mapE f [] = Inr []"
| "mapE f (x # xs) =
     (case f x of
        Inl e \<Rightarrow> Inl e
      | Inr y \<Rightarrow> (case mapE f xs of Inl e \<Rightarrow> Inl e | Inr ys \<Rightarrow> Inr (y # ys)))"

fun filterE :: "('a \<Rightarrow> jserror + bool) \<Rightarrow> 'a list \<Rightarrow> jserror + 'a list" where
  "filterE p [] = Inr []"
| "filterE p (x # xs) =
     (case p x of
        Inl e \<Rightarrow> Inl e
      | Inr b \<Rightarrow> (case filterE p xs of Inl e \<Rightarrow> Inl e | Inr ys \<Rightarrow> Inr (if b then x # ys else ys)))"

text \<open>
  \<^verbatim>\<open>Array.prototype.sort\<close> with a comparator: \<open>x\<close> goes after \<open>y\<close> when the comparator is
  positive (\<^verbatim>\<open>NaN\<close> counts as 0), and an exception of the comparator ends the sort. For a
  comparator that is a consistent ordering the result is the stable sort that ECMA-262
  prescribes; for any other the standard leaves the order to the implementation, and
  the model takes the order of this insertion. The two comparators of the handler throw
  on an element, whatever it is compared with, and a sort of two or more elements
  passes every element to the comparator: whether the sort throws does not depend on
  the algorithm (\<open>sortBy_throws\<close> below).
\<close>

definition positive :: "jsnum \<Rightarrow> bool" where
  "positive n = (case n of Fin r \<Rightarrow> 0 < r | PInf \<Rightarrow> True | _ \<Rightarrow> False)"

fun insertBy :: "('a \<Rightarrow> 'a \<Rightarrow> jserror + jsnum) \<Rightarrow> 'a \<Rightarrow> 'a list \<Rightarrow> jserror + 'a list" where
  "insertBy c x [] = Inr [x]"
| "insertBy c x (y # ys) =
     (case c x y of
        Inl e \<Rightarrow> Inl e
      | Inr n \<Rightarrow>
          if positive n
          then (case insertBy c x ys of Inl e \<Rightarrow> Inl e | Inr zs \<Rightarrow> Inr (y # zs))
          else Inr (x # y # ys))"

fun sortBy :: "('a \<Rightarrow> 'a \<Rightarrow> jserror + jsnum) \<Rightarrow> 'a list \<Rightarrow> jserror + 'a list" where
  "sortBy c [] = Inr []"
| "sortBy c (x # xs) = (case sortBy c xs of Inl e \<Rightarrow> Inl e | Inr ys \<Rightarrow> insertBy c x ys)"

definition widthOr0 :: "json \<Rightarrow> jserror + json" where
  \<comment> \<open>\<^verbatim>\<open>a.width ?? 0\<close>: reading a property of \<^verbatim>\<open>null\<close> is a \<^verbatim>\<open>TypeError\<close>\<close>
  "widthOr0 a =
     (if a = JNull then Inl TypeError
      else Inr (orElse (coalesce (getProp a ''width'') None) (JNum (Fin 0))))"

definition byWidthDesc :: "platform \<Rightarrow> json \<Rightarrow> json \<Rightarrow> jserror + jsnum" where
  \<comment> \<open>the comparator of line 231, \<^verbatim>\<open>(a, b) => (b.width ?? 0) - (a.width ?? 0)\<close>: both
      operands are evaluated, then both are converted\<close>
  "byWidthDesc pf a b =
     (case widthOr0 b of
        Inl e \<Rightarrow> Inl e
      | Inr wb \<Rightarrow>
     (case widthOr0 a of
        Inl e \<Rightarrow> Inl e
      | Inr wa \<Rightarrow>
     (case ToNumber_js pf wb of
        Inl e \<Rightarrow> Inl e
      | Inr nb \<Rightarrow>
     (case ToNumber_js pf wa of
        Inl e \<Rightarrow> Inl e
      | Inr na \<Rightarrow> Inr (jsSub nb na)))))"

definition pickImage :: "platform \<Rightarrow> json option \<Rightarrow> jserror + json option" where
  \<comment> \<open>lines 229-233\<close>
  "pickImage pf images =
     (case images of
        Some (JArr (x # xs)) \<Rightarrow>
          (case sortBy (byWidthDesc pf) (x # xs) of
             Inl e \<Rightarrow> Inl e
           | Inr ordered \<Rightarrow> Inr (optChain (nth_opt ordered 0) ''url''))
      | _ \<Rightarrow> Inr None)"

record normCoords =
  c_lat :: jsnum
  c_lng :: jsnum

record normPrice =
  p_min :: "json option"
  p_max :: "json option"
  p_currency :: "json option"

record normVenue =
  v_name :: "json option"
  v_city :: "json option"
  v_coords :: "normCoords option"

record NormalizedEvent =
  ev_id :: "json option"
  title :: "json option"
  start :: json
  ticketUrl :: "json option"
  priceRange :: "normPrice option"
  categories :: "json list"
  imageUrl :: "json option"
  venue :: normVenue

definition classNames :: "json \<Rightarrow> string \<Rightarrow> jserror + json list" where
  \<comment> \<open>\<^verbatim>\<open>ev.classifications?.map((c) => c?.[k]?.name).filter(Boolean) ?? []\<close>\<close>
  "classNames ev k =
     (case getProp ev ''classifications'' of
        None \<Rightarrow> Inr []
      | Some JNull \<Rightarrow> Inr []
      | Some (JArr cs) \<Rightarrow>
          Inr (filter truthy (List.map_filter (\<lambda>c. optChain (optChain (Some c) k) ''name'') cs))
      | Some _ \<Rightarrow> Inl TypeError)"

definition venueCoords :: "platform \<Rightarrow> json option \<Rightarrow> jserror + normCoords option" where
  \<comment> \<open>lines 367-373; \<^verbatim>\<open>Number\<close> throws on a value that does not convert\<close>
  "venueCoords pf v =
     (let latitude = optChain (optChain v ''location'') ''latitude'';
          longitude = optChain (optChain v ''location'') ''longitude''
      in if truthyOpt latitude \<and> truthyOpt longitude
         then (case ToNumber_js pf (orElse latitude JNull) of
                 Inl e \<Rightarrow> Inl e
               | Inr la \<Rightarrow>
                   (case ToNumber_js pf (orElse longitude JNull) of
                      Inl e \<Rightarrow> Inl e
                    | Inr lo \<Rightarrow> Inr (Some \<lparr>c_lat = la, c_lng = lo\<rparr>)))
         else Inr None)"

definition normalizeEvent :: "platform \<Rightarrow> json \<Rightarrow> jserror + NormalizedEvent" where
  \<comment> \<open>the callback of lines 346-376; \<^verbatim>\<open>ev.priceRanges\<close> is a \<^verbatim>\<open>TypeError\<close> on \<^verbatim>\<open>null\<close>\<close>
  "normalizeEvent pf ev =
     (if ev = JNull then Inl TypeError
      else
        let price = (case getProp ev ''priceRanges'' of Some (JArr xs) \<Rightarrow> nth_opt xs 0 | _ \<Rightarrow> None);
            v = firstOf (optChain (optChain (Some ev) ''_embedded'') ''venues'');
            st = optChain (optChain (Some ev) ''dates'') ''start''
        in case classNames ev ''segment'' of
             Inl e \<Rightarrow> Inl e
           | Inr segments \<Rightarrow>
          (case classNames ev ''genre'' of
             Inl e \<Rightarrow> Inl e
           | Inr genres \<Rightarrow>
          (case pickImage pf (getProp ev ''images'') of
             Inl e \<Rightarrow> Inl e
           | Inr img \<Rightarrow>
          (case venueCoords pf v of
             Inl e \<Rightarrow> Inl e
           | Inr coords \<Rightarrow>
               Inr \<lparr>ev_id = getProp ev ''id'',
                    title = getProp ev ''name'',
                    start = orElse (coalesce (optChain st ''dateTime'')
                                     (coalesce (optChain st ''localDate'') None)) (JStr []),
                    ticketUrl = getProp ev ''url'',
                    priceRange =
                      (case price of
                         Some p \<Rightarrow>
                           if truthy p
                           then Some \<lparr>p_min = getProp p ''min'', p_max = getProp p ''max'',
                                      p_currency = getProp p ''currency''\<rparr>
                           else None
                       | None \<Rightarrow> None),
                    categories = filter truthy (segments @ genres),
                    imageUrl = img,
                    venue = \<lparr>v_name = optChain v ''name'',
                             v_city = optChain (optChain v ''city'') ''name'',
                             v_coords = coords\<rparr>\<rparr>))))"

definition normalizeEvents :: "platform \<Rightarrow> json \<Rightarrow> jserror + NormalizedEvent list" where
  \<comment> \<open>\<^verbatim>\<open>raw?._embedded?.events?.map(...) ?? []\<close>\<close>
  "normalizeEvents pf raw =
     (case optChain (optChain (Some raw) ''_embedded'') ''events'' of
        None \<Rightarrow> Inr []
      | Some JNull \<Rightarrow> Inr []
      | Some (JArr evs) \<Rightarrow> mapE (normalizeEvent pf) evs
      | Some _ \<Rightarrow> Inl TypeError)"

section \<open>Re-filter and sort\<close>

definition effectiveInstant :: "platform \<Rightarrow> json \<Rightarrow> jserror + tv" where
  \<comment> \<open>lines 384-391: the \<open>ms\<close> the filter compares with the window. \<^verbatim>\<open>Date.parse\<close> and the
      test of the pattern read \<^verbatim>\<open>e.start\<close> as a string; \<^verbatim>\<open>e.start.split\<close> exists on a
      string only\<close>
  "effectiveInstant pf st =
     (case String_js pf st of
        Inl e \<Rightarrow> Inl e
      | Inr txt \<Rightarrow>
          (case dateParse pf txt of
             None \<Rightarrow> Inr None
           | Some ms \<Rightarrow>
               if isYMD txt
               then (case st of JStr s \<Rightarrow> Inr (ymdToLocalEnd pf s) | _ \<Rightarrow> Inl TypeError)
               else Inr (Some ms)))"

definition inWindow :: "iso \<Rightarrow> iso option \<Rightarrow> int \<Rightarrow> bool" where
  \<comment> \<open>\<^verbatim>\<open>ms >= startMs && ms <= endMs\<close>, \<open>endMs\<close> infinite when there is no end\<close>
  "inWindow startISO endISO ms =
     (startISO \<le> ms \<and> (case endISO of None \<Rightarrow> True | Some e \<Rightarrow> ms \<le> e))"

definition keepEvent :: "platform \<Rightarrow> iso \<Rightarrow> iso option \<Rightarrow> NormalizedEvent \<Rightarrow> jserror + bool" where
  "keepEvent pf startISO endISO e =
     (case effectiveInstant pf (start e) of
        Inl err \<Rightarrow> Inl err
      | Inr None \<Rightarrow> Inr False
      | Inr (Some ms) \<Rightarrow> Inr (inWindow startISO endISO ms))"

definition tvSub :: "tv \<Rightarrow> tv \<Rightarrow> jsnum" where
  "tvSub a b = (case (a, b) of (Some x, Some y) \<Rightarrow> Fin (of_int (x - y)) | _ \<Rightarrow> NaN)"

definition Date_parse :: "platform \<Rightarrow> json \<Rightarrow> jserror + tv" where
  \<comment> \<open>\<^verbatim>\<open>Date.parse(v)\<close>: the argument is read as a string\<close>
  "Date_parse pf v = (case String_js pf v of Inl e \<Rightarrow> Inl e | Inr s \<Rightarrow> Inr (dateParse pf s))"

definition byStart :: "platform \<Rightarrow> NormalizedEvent \<Rightarrow> NormalizedEvent \<Rightarrow> jserror + jsnum" where
  \<comment> \<open>the comparator of line 396, \<^verbatim>\<open>(a, b) => Date.parse(a.start) - Date.parse(b.start)\<close>\<close>
  "byStart pf a b =
     (case Date_parse pf (start a) of
        Inl e \<Rightarrow> Inl e
      | Inr ta \<Rightarrow> (case Date_parse pf (start b) of Inl e \<Rightarrow> Inl e | Inr tb \<Rightarrow> Inr (tvSub ta tb)))"

definition sortEvents :: "platform \<Rightarrow> NormalizedEvent list \<Rightarrow> jserror + NormalizedEvent list" where
  \<comment> \<open>line 396\<close>
  "sortEvents pf es = sortBy (byStart pf) es"

record pageInfo =
  pi_page :: json
  pi_totalPages :: json
  pi_total :: json

record payload =
  results :: "NormalizedEvent list"
  pageInfo :: pageInfo

definition buildData :: "platform \<Rightarrow> iso \<Rightarrow> iso option \<Rightarrow> json \<Rightarrow> jserror + payload" where
  \<comment> \<open>lines 345-404: normalise, re-filter, sort, add the page information\<close>
  "buildData pf startISO endISO raw =
     (case normalizeEvents pf raw of
        Inl e \<Rightarrow> Inl e
      | Inr events \<Rightarrow>
          (case filterE (keepEvent pf startISO endISO) events of
             Inl e \<Rightarrow> Inl e
           | Inr filtered \<Rightarrow>
          (case sortEvents pf filtered of
             Inl e \<Rightarrow> Inl e
           | Inr ordered \<Rightarrow>
               (let pg = optChain (Some raw) ''page'' in
                Inr \<lparr>results = ordered,
                     pageInfo =
                       \<lparr>pi_page = orElse (coalesce (optChain pg ''number'') None) (JNum (Fin 0)),
                        pi_totalPages = orElse (coalesce (optChain pg ''totalPages'') None) (JNum (Fin 0)),
                        pi_total = orElse (coalesce (optChain pg ''totalElements'') None) (JNum (Fin 0))\<rparr>\<rparr>))))"

section \<open>The cache and the handler\<close>

text \<open>
  The cache key is \<^verbatim>\<open>JSON.stringify({ q, lat, lng, radius, startISO, endISO, page })\<close>: a
  fixed list of fields, an \<^verbatim>\<open>undefined\<close> one left out. It is represented by the record
  of these fields, which the text determines and is determined by.
\<close>

record cacheKey =
  k_q :: "string option"
  k_lat :: "rat option"
  k_lng :: "rat option"
  k_radius :: rat
  k_startISO :: iso
  k_endISO :: "iso option"
  k_page :: rat

record entry =
  ts :: int
  data :: payload

type_synonym cache = "cacheKey \<rightharpoonup> entry"

definition TTL_MS :: int where
  "TTL_MS = 1000 * 60 * 5"

text \<open>
  The environment of one request: the configured API key, the three clock readings the
  handler can take (\<^verbatim>\<open>new Date()\<close> in \<open>startIsoFromYMD\<close>, \<^verbatim>\<open>Date.now()\<close> at the cache
  lookup and at the cache store) and the upstream service, as what \<^verbatim>\<open>fetch\<close> resolves to
  for a URL (\<open>None\<close>: it rejects).
\<close>

record env =
  apiKey :: "string option"
  tNew :: int
  tLookup :: int
  tStore :: int
  fetch :: "tmUrl \<Rightarrow> reply option"

datatype response =
    MissingKey \<comment> \<open>500, \<^verbatim>\<open>{ error: "Missing TICKETMASTER_API_KEY" }\<close>\<close>
  | InvalidQuery "string list" \<comment> \<open>400, \<^verbatim>\<open>{ error: "Invalid query", details }\<close>\<close>
  | Data payload \<comment> \<open>200, \<^verbatim>\<open>{ results, pageInfo }\<close>\<close>
  | Debug iso "iso option" tmUrl \<comment> \<open>200, \<^verbatim>\<open>{ startISO, endISO, tmUrl }\<close>\<close>
  | UpstreamFailed nat details tmUrl
      \<comment> \<open>the upstream status, \<^verbatim>\<open>{ error: "Ticketmaster request failed", details, tmUrl }\<close>\<close>

datatype outcome = Returned response | Threw jserror

record result =
  outcome :: outcome
  cacheAfter :: cache
  upstreamCalls :: "tmUrl list"

definition keyOf :: "searchRequest \<Rightarrow> iso \<Rightarrow> iso option \<Rightarrow> cacheKey" where
  "keyOf rq startISO endISO =
     \<lparr>k_q = rq_q rq, k_lat = rq_lat rq, k_lng = rq_lng rq, k_radius = rq_radius rq,
      k_startISO = startISO, k_endISO = endISO, k_page = rq_page rq\<rparr>"

definition freshHit :: "cache \<Rightarrow> cacheKey \<Rightarrow> int \<Rightarrow> entry option" where
  \<comment> \<open>lines 298-299: \<^verbatim>\<open>hit && Date.now() - hit.ts < TTL_MS\<close>\<close>
  "freshHit c k now =
     (case c k of
        Some hit \<Rightarrow> if now - ts hit < TTL_MS then Some hit else None
      | None \<Rightarrow> None)"

definition errorDetails :: "reply \<Rightarrow> jserror + details" where
  \<comment> \<open>lines 331-336\<close>
  "errorDetails r =
     (case jsonBody r of
        Some j \<Rightarrow> Inr (DJson j)
      | None \<Rightarrow> (case textBody r of Some t \<Rightarrow> Inr (DText t) | None \<Rightarrow> Inl TypeError))"

definition jsonStatusError :: "nat \<Rightarrow> jserror option" where
  \<comment> \<open>\<^verbatim>\<open>NextResponse.json(body, { status })\<close> builds a \<^verbatim>\<open>Response\<close>, whose constructor throws a
      \<^verbatim>\<open>RangeError\<close> for a status outside 200 to 599 and a \<^verbatim>\<open>TypeError\<close> for a body with a
      null-body status (Fetch standard, "initialize a response")\<close>
  "jsonStatusError st =
     (if st < 200 \<or> 599 < st then Some RangeError
      else if st \<in> {204, 205, 304} then Some TypeError
      else None)"

definition upstream :: "platform \<Rightarrow> env \<Rightarrow> cache \<Rightarrow> bool \<Rightarrow> cacheKey \<Rightarrow> iso \<Rightarrow> iso option \<Rightarrow> tmUrl \<Rightarrow> result" where
  \<comment> \<open>lines 328-407: the upstream round trip, the store and the response\<close>
  "upstream pf ev c nocache k startISO endISO url =
     (case fetch ev url of
        None \<Rightarrow> \<lparr>outcome = Threw FetchRejected, cacheAfter = c, upstreamCalls = [url]\<rparr>
      | Some r \<Rightarrow>
          if \<not> r_ok r
          then (case errorDetails r of
                  Inl e \<Rightarrow> \<lparr>outcome = Threw e, cacheAfter = c, upstreamCalls = [url]\<rparr>
                | Inr d \<Rightarrow>
                    (case jsonStatusError (status r) of
                       Some e \<Rightarrow> \<lparr>outcome = Threw e, cacheAfter = c, upstreamCalls = [url]\<rparr>
                     | None \<Rightarrow>
                         \<lparr>outcome = Returned (UpstreamFailed (status r) d url), cacheAfter = c,
                          upstreamCalls = [url]\<rparr>))
          else (case jsonBody r of
                  None \<Rightarrow> \<lparr>outcome = Threw SyntaxError, cacheAfter = c, upstreamCalls = [url]\<rparr>
                | Some raw \<Rightarrow>
                    (case buildData pf startISO endISO raw of
                       Inl e \<Rightarrow> \<lparr>outcome = Threw e, cacheAfter = c, upstreamCalls = [url]\<rparr>
                     | Inr d \<Rightarrow>
                         \<lparr>outcome = Returned (Data d),
                          cacheAfter = (if nocache then c else c(k \<mapsto> \<lparr>ts = tStore ev, data = d\<rparr>)),
                          upstreamCalls = [url]\<rparr>)))"

definition GET :: "platform \<Rightarrow> env \<Rightarrow> query \<Rightarrow> cache \<Rightarrow> result" where
  \<comment> \<open>lines 257-408\<close>
  "GET pf ev qs c =
     (case apiKey ev of
        None \<Rightarrow> \<lparr>outcome = Returned MissingKey, cacheAfter = c, upstreamCalls = []\<rparr>
      | Some [] \<Rightarrow> \<lparr>outcome = Returned MissingKey, cacheAfter = c, upstreamCalls = []\<rparr>
      | Some (k0 # ks) \<Rightarrow>
          (case QuerySchema pf qs of
             Inl flds \<Rightarrow> \<lparr>outcome = Returned (InvalidQuery flds), cacheAfter = c, upstreamCalls = []\<rparr>
           | Inr rq \<Rightarrow>
               (case dateWindow pf (tNew ev) (rq_from rq) (rq_to rq) of
                  Inl e \<Rightarrow> \<lparr>outcome = Threw e, cacheAfter = c, upstreamCalls = []\<rparr>
                | Inr (startISO, endISO) \<Rightarrow>
                    (let nocache = (searchParam qs ''nocache'' = Some ''1'');
                         k = keyOf rq startISO endISO
                     in case (if nocache then None else freshHit c k (tLookup ev)) of
                          Some hit \<Rightarrow>
                            \<lparr>outcome = Returned (Data (data hit)), cacheAfter = c, upstreamCalls = []\<rparr>
                        | None \<Rightarrow>
                            (let url = buildTmUrl (k0 # ks) rq startISO endISO
                             in if searchParam qs ''debug'' = Some ''1''
                                then \<lparr>outcome = Returned (Debug startISO endISO url), cacheAfter = c,
                                      upstreamCalls = []\<rparr>
                                else upstream pf ev c nocache k startISO endISO url)))))"

section \<open>A host for evaluation\<close>

text \<open>
  A host in the UTC time zone, used where a theorem is evaluated at a concrete input. Its
  \<^verbatim>\<open>ToNumber\<close> reads \<^verbatim>\<open>null\<close>, booleans, numbers and strings that are empty or decimal
  digits (after trimming); any other string is given \<^verbatim>\<open>NaN\<close>, which is JavaScript's
  value for a string that is no numeric literal. Its \<^verbatim>\<open>Date.parse\<close> reads the two ISO
  forms \<^verbatim>\<open>YYYY-MM-DD\<close> (midnight UTC, as ECMA-262 reads a date-only form) and
  \<^verbatim>\<open>YYYY-MM-DDTHH:mm:ssZ\<close> and gives \<^verbatim>\<open>NaN\<close> for any other text. Its \<^verbatim>\<open>ToString\<close> is
  JavaScript's on \<^verbatim>\<open>null\<close>, booleans, strings and objects; numbers and arrays are given
  the empty text. The evaluations below use the host on inputs of the first kind only.
\<close>

definition hostToNumber :: "json \<Rightarrow> jsnum" where
  "hostToNumber v =
     (case v of
        JNull \<Rightarrow> Fin 0
      | JBool b \<Rightarrow> Fin (if b then 1 else 0)
      | JNum n \<Rightarrow> n
      | JStr s \<Rightarrow>
          (let t = trim s
           in if list_all isDigit t then Fin (of_nat (decimalValue t)) else NaN)
      | _ \<Rightarrow> NaN)"

definition hostToString :: "json \<Rightarrow> string" where
  "hostToString v =
     (case v of
        JNull \<Rightarrow> ''null''
      | JBool b \<Rightarrow> (if b then ''true'' else ''false'')
      | JStr s \<Rightarrow> s
      | JObj _ \<Rightarrow> ''[object Object]''
      | _ \<Rightarrow> [])"

definition daysInMonth :: "int \<Rightarrow> int \<Rightarrow> int" where
  "daysInMonth y m =
     (if m = 2 then (if DaysInYear y = 366 then 29 else 28)
      else if m \<in> {4, 6, 9, 11} then 30 else 31)"

definition isIsoZ :: "string \<Rightarrow> bool" where
  \<comment> \<open>\<^verbatim>\<open>YYYY-MM-DDTHH:mm:ssZ\<close>\<close>
  "isIsoZ s = (length s = 20 \<and> isYMD (take 10 s) \<and> s ! 10 = CHR ''T''
     \<and> list_all isDigit (take 2 (drop 11 s)) \<and> s ! 13 = CHR '':''
     \<and> list_all isDigit (take 2 (drop 14 s)) \<and> s ! 16 = CHR '':''
     \<and> list_all isDigit (take 2 (drop 17 s)) \<and> s ! 19 = CHR ''Z'')"

definition hostParseDay :: "string \<Rightarrow> int option" where
  \<comment> \<open>the day number of a \<^verbatim>\<open>YYYY-MM-DD\<close> text that names a day of the calendar\<close>
  "hostParseDay s =
     (let y = int (decimalValue (take 4 s));
          m = int (decimalValue (take 2 (drop 5 s)));
          d = int (decimalValue (take 2 (drop 8 s)))
      in if 1 \<le> m \<and> m \<le> 12 \<and> 1 \<le> d \<and> d \<le> daysInMonth y m
         then Some (MakeDay y (m - 1) d) else None)"

definition hostDateParse :: "string \<Rightarrow> tv" where
  "hostDateParse s =
     (if isYMD s
      then (case hostParseDay s of None \<Rightarrow> None | Some day \<Rightarrow> TimeClip (MakeDate day 0))
      else if isIsoZ s
      then (let h = int (decimalValue (take 2 (drop 11 s)));
                mi = int (decimalValue (take 2 (drop 14 s)));
                sec = int (decimalValue (take 2 (drop 17 s)))
            in case hostParseDay (take 10 s) of
                 None \<Rightarrow> None
               | Some day \<Rightarrow>
                   if (h \<le> 23 \<and> mi \<le> 59 \<and> sec \<le> 59) \<or> (h = 24 \<and> mi = 0 \<and> sec = 0)
                   then TimeClip (MakeDate day (MakeTime h mi sec 0)) else None)
      else None)"

definition utcHost :: platform where
  "utcHost = \<lparr>toNumber = hostToNumber, toStringOf = hostToString,
              dateParse = hostDateParse, utcOfLocal = (\<lambda>t. t)\<rparr>"

section \<open>Properties of requests and responses\<close>

definition resultsOf :: "result \<Rightarrow> NormalizedEvent list" where
  \<comment> \<open>the \<open>results\<close> list of the response, when it has one\<close>
  "resultsOf r = (case outcome r of Returned (Data d) \<Rightarrow> results d | _ \<Rightarrow> [])"

definition parseStart :: "platform \<Rightarrow> NormalizedEvent \<Rightarrow> tv" where
  \<comment> \<open>the instant \<^verbatim>\<open>Date.parse(e.start)\<close> gives, \<open>None\<close> when it gives none\<close>
  "parseStart pf e = (case Date_parse pf (start e) of Inr t \<Rightarrow> t | Inl _ \<Rightarrow> None)"

definition effectiveTime :: "platform \<Rightarrow> NormalizedEvent \<Rightarrow> tv" where
  \<comment> \<open>the instant the filter compares with the window, \<open>None\<close> when there is none\<close>
  "effectiveTime pf e = (case effectiveInstant pf (start e) of Inr t \<Rightarrow> t | Inl _ \<Rightarrow> None)"

definition eventInWindow :: "platform \<Rightarrow> iso \<Rightarrow> iso option \<Rightarrow> NormalizedEvent \<Rightarrow> bool" where
  \<comment> \<open>\<open>start\<close> parses, and the instant the filter computes lies in the window\<close>
  "eventInWindow pf startISO endISO e =
     (parseStart pf e \<noteq> None \<and>
      (case effectiveTime pf e of
         Some ms \<Rightarrow> startISO \<le> ms \<and> (case endISO of None \<Rightarrow> True | Some u \<Rightarrow> ms \<le> u)
       | None \<Rightarrow> False))"




fun ascendingBy :: "('a \<Rightarrow> tv) \<Rightarrow> 'a list \<Rightarrow> bool" where
  \<comment> \<open>every adjacent pair has its two instants, in order\<close>
  "ascendingBy f (x # y # xs) =
     ((case (f x, f y) of (Some a, Some b) \<Rightarrow> a \<le> b | _ \<Rightarrow> False) \<and> ascendingBy f (y # xs))"
| "ascendingBy f xs = True"

text \<open>The caches the process can hold: the module starts with an empty map, and only
  the handler writes to it.\<close>

inductive reachable :: "platform \<Rightarrow> cache \<Rightarrow> bool" for pf :: platform where
  initial: "reachable pf Map.empty"
| request: "reachable pf c \<Longrightarrow> reachable pf (cacheAfter (GET pf ev qs c))"

definition cacheOk :: "platform \<Rightarrow> cache \<Rightarrow> bool" where
  \<comment> \<open>every entry holds results filtered by the window of its key and sorted\<close>
  "cacheOk pf c =
     (\<forall>k ent. c k = Some ent \<longrightarrow>
        list_all (eventInWindow pf (k_startISO k) (k_endISO k)) (results (data ent))
        \<and> ascendingBy (parseStart pf) (results (data ent)))"



definition hasFlag :: "query \<Rightarrow> string \<Rightarrow> bool" where
  \<comment> \<open>\<^verbatim>\<open>url.searchParams.get(name) === "1"\<close>\<close>
  "hasFlag qs name = (searchParam qs name = Some ''1'')"

definition fromGiven :: "query \<Rightarrow> bool" where
  \<comment> \<open>the query has a \<open>from\<close> that is not empty\<close>
  "fromGiven qs = (case fromEntries qs ''from'' of Some (c # cs) \<Rightarrow> True | _ \<Rightarrow> False)"

definition venueOf :: "json \<Rightarrow> json option" where
  \<comment> \<open>\<^verbatim>\<open>ev?._embedded?.venues?.[0]\<close>\<close>
  "venueOf ev = firstOf (optChain (optChain (Some ev) ''_embedded'') ''venues'')"

definition latitudeOf :: "json \<Rightarrow> json option" where
  "latitudeOf ev = optChain (optChain (venueOf ev) ''location'') ''latitude''"

definition longitudeOf :: "json \<Rightarrow> json option" where
  "longitudeOf ev = optChain (optChain (venueOf ev) ''location'') ''longitude''"

definition parsesAsNumber :: "platform \<Rightarrow> json option \<Rightarrow> bool" where
  \<comment> \<open>present, and \<^verbatim>\<open>Number\<close> of it is not \<^verbatim>\<open>NaN\<close>\<close>
  "parsesAsNumber pf v = (case v of None \<Rightarrow> False | Some x \<Rightarrow> toNumber pf x \<noteq> NaN)"

definition coordsOf :: "platform \<Rightarrow> json \<Rightarrow> normCoords option" where
  \<comment> \<open>the coordinates of the venue of the normalised record\<close>
  "coordsOf pf ev = (case normalizeEvent pf ev of Inr e \<Rightarrow> v_coords (venue e) | Inl _ \<Rightarrow> None)"

definition keyParam :: "tmUrl \<Rightarrow> pval option" where
  \<comment> \<open>the \<open>apikey\<close> parameter of an upstream URL\<close>
  "keyParam url = map_of (snd url) ''apikey''"

section \<open>Sample requests\<close>

definition evDay :: json where
  "evDay = JObj [(''id'', JStr ''A''), (''name'', JStr ''Parade''),
     (''dates'', JObj [(''start'', JObj [(''localDate'', JStr ''2025-07-04'')])])]"

definition evTimed :: json where
  "evTimed = JObj [(''id'', JStr ''B''), (''name'', JStr ''Concert''),
     (''dates'', JObj [(''start'', JObj [(''dateTime'', JStr ''2025-07-04T10:00:00Z''),
                                        (''localDate'', JStr ''2025-07-04'')])]),
     (''_embedded'', JObj [(''venues'', JArr [JObj [(''name'', JStr ''Hall''),
        (''location'', JObj [(''latitude'', JStr ''43''), (''longitude'', JStr ''79'')])]])])]"

definition evBadCoords :: json where
  "evBadCoords = JObj [(''id'', JStr ''C''),
     (''_embedded'', JObj [(''venues'', JArr [JObj [
        (''location'', JObj [(''latitude'', JStr ''abc''), (''longitude'', JStr ''10'')])]])])]"

definition rawJuly :: json where
  "rawJuly = JObj [(''_embedded'', JObj [(''events'', JArr [evTimed, evDay])]),
     (''page'', JObj [(''number'', JNum (Fin 0)), (''totalPages'', JNum (Fin 1)),
                      (''totalElements'', JNum (Fin 2))])]"

definition envAt :: "int \<Rightarrow> env" where
  \<comment> \<open>a configured key, the clock at \<open>t\<close>, and an upstream that answers 200 with \<open>rawJuly\<close>\<close>
  "envAt t = \<lparr>apiKey = Some ''KEY'', tNew = t, tLookup = t, tStore = t,
     fetch = (\<lambda>u. Some \<lparr>status = 200, jsonBody = Some rawJuly, textBody = None\<rparr>)\<rparr>"

definition envDown :: env where
  \<comment> \<open>an upstream that answers 401 with a JSON body\<close>
  "envDown = \<lparr>apiKey = Some ''KEY'', tNew = 0, tLookup = 0, tStore = 0,
     fetch = (\<lambda>u. Some \<lparr>status = 401, jsonBody = Some (JObj [(''fault'', JStr ''Invalid ApiKey'')]),
                         textBody = None\<rparr>)\<rparr>"

definition qsJuly :: query where
  "qsJuly = [(''from'', ''2025-07-01''), (''to'', ''2025-07-31'')]"

definition cacheJuly :: cache where
  \<comment> \<open>the cache after the request \<open>qsJuly\<close> at time 0\<close>
  "cacheJuly = cacheAfter (GET utcHost (envAt 0) qsJuly Map.empty)"

text \<open>What the handler makes of \<open>qsJuly\<close> and \<open>rawJuly\<close> on \<open>utcHost\<close>.\<close>

definition rqJuly :: searchRequest where
  "rqJuly = \<lparr>rq_q = None, rq_lat = None, rq_lng = None, rq_radius = 25,
     rq_from = Some ''2025-07-01'', rq_to = Some ''2025-07-31'', rq_page = 0\<rparr>"

definition startJuly :: iso where
  \<comment> \<open>2025-07-01T00:00:00Z\<close>
  "startJuly = 1751328000000"

definition endJuly :: iso where
  \<comment> \<open>2025-07-31T23:59:59Z\<close>
  "endJuly = 1754006399000"

definition keyJuly :: cacheKey where
  "keyJuly = keyOf rqJuly startJuly (Some endJuly)"

definition urlJuly :: tmUrl where
  "urlJuly = buildTmUrl ''KEY'' rqJuly startJuly (Some endJuly)"

definition normDay :: NormalizedEvent where
  "normDay = \<lparr>ev_id = Some (JStr ''A''), title = Some (JStr ''Parade''),
     start = JStr ''2025-07-04'', ticketUrl = None, priceRange = None, categories = [],
     imageUrl = None, venue = \<lparr>v_name = None, v_city = None, v_coords = None\<rparr>\<rparr>"

definition normTimed :: NormalizedEvent where
  "normTimed = \<lparr>ev_id = Some (JStr ''B''), title = Some (JStr ''Concert''),
     start = JStr ''2025-07-04T10:00:00Z'', ticketUrl = None, priceRange = None,
     categories = [], imageUrl = None,
     venue = \<lparr>v_name = Some (JStr ''Hall''), v_city = None,
              v_coords = Some \<lparr>c_lat = Fin 43, c_lng = Fin 79\<rparr>\<rparr>\<rparr>"

definition dataJuly :: payload where
  "dataJuly = \<lparr>results = [normDay, normTimed],
     pageInfo = \<lparr>pi_page = JNum (Fin 0), pi_totalPages = JNum (Fin 1),
                 pi_total = JNum (Fin 2)\<rparr>\<rparr>"

definition qsJulyNocache :: query where
  "qsJulyNocache = qsJuly @ [(''nocache'', ''1'')]"

definition qsJulyDebug :: query where
  "qsJulyDebug = qsJuly @ [(''debug'', ''1'')]"

definition qsJulyNocacheDebug :: query where
  "qsJulyNocacheDebug = qsJuly @ [(''nocache'', ''1''), (''debug'', ''1'')]"

definition qsBadFrom :: query where
  "qsBadFrom = [(''from'', ''abc'')]"

definition qsBadLat :: query where
  "qsBadLat = [(''lat'', ''abc'')]"

definition rqAll :: searchRequest where
  \<comment> \<open>the request of the empty query\<close>
  "rqAll = \<lparr>rq_q = None, rq_lat = None, rq_lng = None, rq_radius = 25,
     rq_from = None, rq_to = None, rq_page = 0\<rparr>"

definition envNoKey :: env where
  \<comment> \<open>no API key configured\<close>
  "envNoKey = \<lparr>apiKey = None, tNew = 0, tLookup = 0, tStore = 0, fetch = (\<lambda>u. None)\<rparr>"








section \<open>The date window\<close>

lemma toIsoNoMs_whole_second: "toIsoNoMs d = Inr t \<Longrightarrow> t mod 1000 = 0"
  by (auto simp: toIsoNoMs_def split: option.splits)

lemma startIso_whole_second: "startIsoFromYMD pf now s = Inr t \<Longrightarrow> t mod 1000 = 0"
  by (auto simp: startIsoFromYMD_def dest: toIsoNoMs_whole_second split: option.splits list.splits)

lemma endIso_whole_second: "endIsoFromYMD pf s = Inr (Some t) \<Longrightarrow> t mod 1000 = 0"
  by (auto simp: endIsoFromYMD_def dest: toIsoNoMs_whole_second
      split: option.splits list.splits sum.splits)

lemma whole_second_add:
  assumes "(s0::int) mod 1000 = 0"
  shows "((s0 + MAX_WINDOW_MS) div 1000) * 1000 = s0 + MAX_WINDOW_MS"
proof -
  have "(s0 + MAX_WINDOW_MS) mod 1000 = 0"
    using assms by (simp add: MAX_WINDOW_MS_def mod_add_eq [symmetric])
  then show ?thesis by (simp add: mod_0_imp_dvd)
qed

lemma capWindow_Some:
  assumes "capWindow s0 (Some e0) = Inr (s, Some e)" and "s0 mod 1000 = 0"
  shows "s = s0 \<and> e = min e0 (s0 + MAX_WINDOW_MS)"
proof (cases "e0 - s0 > MAX_WINDOW_MS")
  case True
  with assms(1) whole_second_add [OF assms(2)] show ?thesis
    by (auto simp: capWindow_def toIsoNoMs_def TimeClip_def split: if_splits)
next
  case False
  with assms(1) show ?thesis by (auto simp: capWindow_def)
qed

section \<open>Filtering and sorting\<close>

lemma filterE_Inr:
  "filterE p xs = Inr ys \<Longrightarrow> y \<in> set ys \<Longrightarrow> p y = Inr True \<and> y \<in> set xs"
  by (induction xs arbitrary: ys) (auto split: sum.splits if_splits)

lemma insertBy_Cons_Inr:
  assumes "insertBy c x (y # ys) = Inr zs"
  obtains n where "c x y = Inr n" "\<not> positive n" "zs = x # y # ys"
  | n zs' where "c x y = Inr n" "positive n" "insertBy c x ys = Inr zs'" "zs = y # zs'"
proof (cases "c x y")
  case (Inl e)
  with assms show ?thesis by simp
next
  case (Inr n)
  show ?thesis
  proof (cases "positive n")
    case False
    with assms Inr that(1) show ?thesis by simp
  next
    case True
    with assms Inr that(2) show ?thesis by (cases "insertBy c x ys") simp_all
  qed
qed

lemma sortBy_Cons_Inr:
  assumes "sortBy c (x # xs) = Inr zs"
  obtains ys where "sortBy c xs = Inr ys" "insertBy c x ys = Inr zs"
  using assms by (cases "sortBy c xs") simp_all

lemma set_insertBy: "insertBy c x ys = Inr zs \<Longrightarrow> set zs = insert x (set ys)"
proof (induction ys arbitrary: zs)
  case Nil
  then show ?case by auto
next
  case (Cons y ys)
  from Cons.prems show ?case
  proof (cases rule: insertBy_Cons_Inr)
    case (1 n)
    then show ?thesis by auto
  next
    case (2 n zs')
    with Cons.IH [of zs'] show ?thesis by auto
  qed
qed

lemma set_sortBy: "sortBy c xs = Inr ys \<Longrightarrow> set ys = set xs"
proof (induction xs arbitrary: ys)
  case Nil
  then show ?case by simp
next
  case (Cons x xs)
  from Cons.prems obtain ys' where "sortBy c xs = Inr ys'" "insertBy c x ys' = Inr ys"
    by (rule sortBy_Cons_Inr)
  with Cons.IH [of ys'] set_insertBy [of c x ys' ys] show ?case by simp
qed

lemma length_insertBy: "insertBy c x ys = Inr zs \<Longrightarrow> length zs = Suc (length ys)"
proof (induction ys arbitrary: zs)
  case Nil
  then show ?case by auto
next
  case (Cons y ys)
  from Cons.prems show ?case
  proof (cases rule: insertBy_Cons_Inr)
    case (1 n)
    then show ?thesis by simp
  next
    case (2 n zs')
    with Cons.IH [of zs'] show ?thesis by simp
  qed
qed

lemma length_sortBy: "sortBy c xs = Inr ys \<Longrightarrow> length ys = length xs"
proof (induction xs arbitrary: ys)
  case Nil
  then show ?case by simp
next
  case (Cons x xs)
  from Cons.prems obtain ys' where "sortBy c xs = Inr ys'" "insertBy c x ys' = Inr ys"
    by (rule sortBy_Cons_Inr)
  with Cons.IH [of ys'] length_insertBy [of c x ys' ys] show ?case by simp
qed

text \<open>A comparator that throws exactly on the pairs with a bad element makes the sort
  throw exactly on the lists of two or more elements that hold a bad one.\<close>

lemma insertBy_good:
  assumes "\<And>x y. isl (c x y) = (bad x \<or> bad y)"
    and "\<not> bad x" "\<forall>y \<in> set ys. \<not> bad y"
  shows "\<not> isl (insertBy c x ys)"
  using assms(3)
proof (induction ys)
  case Nil
  show ?case by simp
next
  case (Cons y ys)
  from assms(1) [of x y] assms(2) Cons.prems have "\<not> isl (c x y)" by simp
  then obtain n where n: "c x y = Inr n" by (cases "c x y") auto
  from Cons have "\<not> isl (insertBy c x ys)" by simp
  then obtain zs where "insertBy c x ys = Inr zs" by (cases "insertBy c x ys") auto
  with n show ?case by simp
qed

lemma insertBy_bad:
  assumes "\<And>x y. isl (c x y) = (bad x \<or> bad y)"
    and "bad x \<or> bad y"
  shows "isl (insertBy c x (y # ys))"
proof -
  from assms have "isl (c x y)" by simp
  then obtain e where "c x y = Inl e" by (cases "c x y") auto
  then show ?thesis by simp
qed

lemma sortBy_throws:
  assumes "\<And>x y. isl (c x y) = (bad x \<or> bad y)"
  shows "isl (sortBy c xs) = (2 \<le> length xs \<and> list_ex bad xs)"
proof (induction xs)
  case Nil
  show ?case by simp
next
  case (Cons x xs)
  show ?case
  proof (cases "sortBy c xs")
    case (Inl e)
    with Cons show ?thesis by (auto simp: list_ex_iff)
  next
    case (Inr ys)
    with Cons have ok: "\<not> (2 \<le> length xs \<and> list_ex bad xs)" by simp
    have s: "set ys = set xs" and l: "length ys = length xs"
      using Inr by (rule set_sortBy, rule length_sortBy)
    show ?thesis
    proof (cases "bad x \<or> list_ex bad xs")
      case False
      then have "\<not> isl (insertBy c x ys)"
        using insertBy_good [of c bad x ys, OF assms] s by (simp add: list_ex_iff)
      with False Inr show ?thesis by simp
    next
      case True
      show ?thesis
      proof (cases ys)
        case Nil
        with l Inr True show ?thesis by (simp add: list_ex_iff)
      next
        case (Cons y ys')
        have "bad x \<or> bad y"
        proof (cases "bad x")
          case False
          with True have b: "list_ex bad xs" by simp
          with ok have "length xs < 2" by simp
          with l Cons have "ys' = []" by (cases ys') auto
          moreover from b s have "\<exists>u \<in> set ys. bad u" by (simp add: list_ex_iff)
          ultimately show ?thesis using Cons by simp
        qed simp
        from insertBy_bad [of c bad x y ys', OF assms this] Inr Cons l True show ?thesis
          by (auto simp: list_ex_iff)
      qed
    qed
  qed
qed

lemma byStart_Inr:
  "byStart pf a b = Inr n \<Longrightarrow> n = tvSub (parseStart pf a) (parseStart pf b)"
  by (auto simp: byStart_def parseStart_def split: sum.splits)

lemma positive_tvSub: "positive (tvSub (Some a) (Some b)) = (b < a)"
  by (simp add: positive_def tvSub_def)

lemma ascendingBy_sorted:
  assumes "\<forall>x \<in> set xs. f x \<noteq> None"
  shows "ascendingBy f xs = sorted (map (\<lambda>x. orElse (f x) 0) xs)"
  using assms
proof (induction f xs rule: ascendingBy.induct)
  case (1 f x y xs)
  then obtain a b where "f x = Some a" "f y = Some b" by auto
  with 1 show ?case by (fastforce simp: orElse_def)
qed auto

lemma sorted_insertBy:
  assumes "insertBy (byStart pf) x ys = Inr zs"
    and "\<forall>y \<in> set (x # ys). parseStart pf y \<noteq> None"
    and "sorted (map (\<lambda>e. orElse (parseStart pf e) 0) ys)"
  shows "sorted (map (\<lambda>e. orElse (parseStart pf e) 0) zs)"
  using assms
proof (induction ys arbitrary: zs)
  case Nil
  then show ?case by auto
next
  case (Cons y ys)
  then obtain a b where ab: "parseStart pf x = Some a" "parseStart pf y = Some b" by auto
  have below: "\<forall>u \<in> set ys. b \<le> orElse (parseStart pf u) 0"
    using Cons.prems(3) ab by (simp add: orElse_def)
  from Cons.prems(1) show ?case
  proof (cases rule: insertBy_Cons_Inr)
    case (1 n)
    with ab have "a \<le> b" by (auto dest: byStart_Inr simp: positive_tvSub)
    with below have "\<forall>u \<in> set ys. a \<le> orElse (parseStart pf u) 0" by fastforce
    with \<open>a \<le> b\<close> Cons.prems(3) ab 1 show ?thesis by (simp add: orElse_def)
  next
    case (2 n zs')
    with ab have "b < a" by (auto dest: byStart_Inr simp: positive_tvSub)
    have "sorted (map (\<lambda>e. orElse (parseStart pf e) 0) zs')"
      using Cons.IH [OF 2(3)] Cons.prems by simp
    moreover have "\<forall>u \<in> set zs'. b \<le> orElse (parseStart pf u) 0"
      using below \<open>b < a\<close> ab set_insertBy [OF 2(3)] by (simp add: orElse_def)
    ultimately show ?thesis using ab 2 by (simp add: orElse_def)
  qed
qed

lemma sorted_sortEvents:
  assumes "sortEvents pf es = Inr ys" and "\<forall>y \<in> set es. parseStart pf y \<noteq> None"
  shows "sorted (map (\<lambda>e. orElse (parseStart pf e) 0) ys)"
  using assms unfolding sortEvents_def
proof (induction es arbitrary: ys)
  case Nil
  then show ?case by simp
next
  case (Cons e es)
  from Cons.prems(1) obtain ys' where s: "sortBy (byStart pf) es = Inr ys'"
    and i: "insertBy (byStart pf) e ys' = Inr ys"
    by (rule sortBy_Cons_Inr)
  have "sorted (map (\<lambda>e. orElse (parseStart pf e) 0) ys')"
    using Cons.IH [OF s] Cons.prems(2) by simp
  moreover have "\<forall>y \<in> set (e # ys'). parseStart pf y \<noteq> None"
    using Cons.prems(2) set_sortBy [OF s] by simp
  ultimately show ?case using sorted_insertBy [OF i] by simp
qed

lemma keepEvent_True:
  "keepEvent pf s e ev = Inr True \<Longrightarrow> eventInWindow pf s e ev"
  by (auto simp: keepEvent_def eventInWindow_def effectiveTime_def effectiveInstant_def
      parseStart_def Date_parse_def inWindow_def
      split: sum.splits option.splits if_splits json.splits)

lemma eventInWindow_parses: "eventInWindow pf s e ev \<Longrightarrow> parseStart pf ev \<noteq> None"
  by (simp add: eventInWindow_def)

text \<open>The sort of line 396 cannot throw: the filter has read every \<open>start\<close> it kept.\<close>

lemma sortEvents_after_filter:
  assumes "filterE (keepEvent pf s e) events = Inr filtered"
  shows "\<exists>ordered. sortEvents pf filtered = Inr ordered"
proof -
  have b: "\<And>x y. isl (byStart pf x y) = (isl (Date_parse pf (start x)) \<or> isl (Date_parse pf (start y)))"
    by (auto simp: byStart_def split: sum.splits)
  have "\<not> isl (Date_parse pf (start y))" if "y \<in> set filtered" for y
  proof -
    from filterE_Inr [OF assms that] have "parseStart pf y \<noteq> None"
      using keepEvent_True eventInWindow_parses by blast
    then show ?thesis by (auto simp: parseStart_def split: sum.splits)
  qed
  then have "\<not> list_ex (\<lambda>x. isl (Date_parse pf (start x))) filtered"
    by (simp add: list_ex_iff)
  with sortBy_throws [of "byStart pf" "\<lambda>x. isl (Date_parse pf (start x))" filtered, OF b]
  have "\<not> isl (sortEvents pf filtered)" by (simp add: sortEvents_def)
  then show ?thesis by (cases "sortEvents pf filtered") auto
qed

lemma buildData_ok:
  assumes "buildData pf s e raw = Inr d"
  shows "list_all (eventInWindow pf s e) (results d) \<and> ascendingBy (parseStart pf) (results d)"
proof -
  from assms obtain events filtered where f: "filterE (keepEvent pf s e) events = Inr filtered"
    and d: "sortEvents pf filtered = Inr (results d)"
    by (auto simp: buildData_def Let_def split: sum.splits)
  have win: "\<forall>y \<in> set filtered. eventInWindow pf s e y"
    using filterE_Inr [OF f] keepEvent_True by blast
  then have p: "\<forall>y \<in> set filtered. parseStart pf y \<noteq> None"
    using eventInWindow_parses by blast
  have "set (results d) = set filtered" using d by (simp add: sortEvents_def set_sortBy)
  with win p have "list_all (eventInWindow pf s e) (results d)"
    and "\<forall>y \<in> set (results d). parseStart pf y \<noteq> None"
    by (auto simp: list_all_iff)
  moreover have "sorted (map (\<lambda>e. orElse (parseStart pf e) 0) (results d))"
    using d p by (rule sorted_sortEvents)
  ultimately show ?thesis by (simp add: ascendingBy_sorted)
qed

section \<open>The handler, case by case\<close>

lemma upstream_Data:
  "outcome (upstream pf ev c nocache k s e url) = Returned (Data d) \<Longrightarrow>
   \<exists>raw. buildData pf s e raw = Inr d"
  by (auto simp: upstream_def split: option.splits sum.splits if_splits)

lemma upstream_cacheOk:
  assumes "cacheOk pf c"
  shows "cacheOk pf (cacheAfter (upstream pf ev c nocache (keyOf rq s e) s e url))"
proof -
  have "cacheAfter (upstream pf ev c nocache (keyOf rq s e) s e url) = c \<or>
    (\<exists>d raw. buildData pf s e raw = Inr d \<and>
       cacheAfter (upstream pf ev c nocache (keyOf rq s e) s e url)
         = c(keyOf rq s e \<mapsto> \<lparr>ts = tStore ev, data = d\<rparr>))"
    by (auto simp: upstream_def split: option.splits sum.splits)
  then show ?thesis
  proof
    assume "cacheAfter (upstream pf ev c nocache (keyOf rq s e) s e url) = c"
    with assms show ?thesis by simp
  next
    assume "\<exists>d raw. buildData pf s e raw = Inr d \<and>
       cacheAfter (upstream pf ev c nocache (keyOf rq s e) s e url)
         = c(keyOf rq s e \<mapsto> \<lparr>ts = tStore ev, data = d\<rparr>)"
    then obtain d raw where b: "buildData pf s e raw = Inr d"
      and c': "cacheAfter (upstream pf ev c nocache (keyOf rq s e) s e url)
         = c(keyOf rq s e \<mapsto> \<lparr>ts = tStore ev, data = d\<rparr>)" by blast
    from buildData_ok [OF b] assms show ?thesis
      unfolding c' by (auto simp: cacheOk_def keyOf_def)
  qed
qed

lemma GET_cases:
  "(\<exists>r. GET pf ev qs c = \<lparr>outcome = r, cacheAfter = c, upstreamCalls = []\<rparr>
       \<and> (\<forall>d. r \<noteq> Returned (Data d)))
   \<or> (\<exists>rq s e hit. QuerySchema pf qs = Inr rq
        \<and> dateWindow pf (tNew ev) (rq_from rq) (rq_to rq) = Inr (s, e)
        \<and> \<not> hasFlag qs ''nocache''
        \<and> freshHit c (keyOf rq s e) (tLookup ev) = Some hit
        \<and> GET pf ev qs c = \<lparr>outcome = Returned (Data (data hit)), cacheAfter = c, upstreamCalls = []\<rparr>)
   \<or> (\<exists>rq s e key. QuerySchema pf qs = Inr rq
        \<and> dateWindow pf (tNew ev) (rq_from rq) (rq_to rq) = Inr (s, e)
        \<and> apiKey ev = Some key \<and> key \<noteq> []
        \<and> (\<not> hasFlag qs ''nocache'' \<longrightarrow> freshHit c (keyOf rq s e) (tLookup ev) = None)
        \<and> \<not> hasFlag qs ''debug''
        \<and> GET pf ev qs c = upstream pf ev c (hasFlag qs ''nocache'') (keyOf rq s e) s e
                             (buildTmUrl key rq s e))"
  by (auto simp: GET_def Let_def hasFlag_def split: option.splits list.splits sum.splits prod.splits)

lemma freshHit_Some: "freshHit c k now = Some hit \<Longrightarrow> c k = Some hit \<and> now - ts hit < TTL_MS"
  by (auto simp: freshHit_def split: option.splits if_splits)

lemma GET_cacheOk:
  assumes "cacheOk pf c"
  shows "cacheOk pf (cacheAfter (GET pf ev qs c))"
  using GET_cases [of pf ev qs c] assms upstream_cacheOk [OF assms]
  by (elim disjE exE conjE) simp_all

lemma reachable_cacheOk: "reachable pf c \<Longrightarrow> cacheOk pf c"
proof (induction rule: reachable.induct)
  case initial
  show ?case by (simp add: cacheOk_def)
next
  case (request c ev qs)
  then show ?case by (simp add: GET_cacheOk)
qed

lemma GET_Data_ok:
  assumes "cacheOk pf c" and "outcome (GET pf ev qs c) = Returned (Data d)"
  shows "\<exists>rq s e. QuerySchema pf qs = Inr rq
       \<and> dateWindow pf (tNew ev) (rq_from rq) (rq_to rq) = Inr (s, e)
       \<and> list_all (eventInWindow pf s e) (results d)
       \<and> ascendingBy (parseStart pf) (results d)"
  using GET_cases [of pf ev qs c]
proof (elim disjE exE conjE)
  fix r
  assume "GET pf ev qs c = \<lparr>outcome = r, cacheAfter = c, upstreamCalls = []\<rparr>"
    and "\<forall>d. r \<noteq> Returned (Data d)"
  with assms(2) show ?thesis by simp
next
  fix rq s e hit
  assume q: "QuerySchema pf qs = Inr rq"
    and w: "dateWindow pf (tNew ev) (rq_from rq) (rq_to rq) = Inr (s, e)"
    and h: "freshHit c (keyOf rq s e) (tLookup ev) = Some hit"
    and g: "GET pf ev qs c = \<lparr>outcome = Returned (Data (data hit)), cacheAfter = c, upstreamCalls = []\<rparr>"
  from g assms(2) have "d = data hit" by simp
  moreover from h have "c (keyOf rq s e) = Some hit" by (simp add: freshHit_Some)
  moreover have "k_startISO (keyOf rq s e) = s" "k_endISO (keyOf rq s e) = e"
    by (simp_all add: keyOf_def)
  ultimately have "list_all (eventInWindow pf s e) (results d) \<and> ascendingBy (parseStart pf) (results d)"
    using assms(1) unfolding cacheOk_def by metis
  with q w show ?thesis by blast
next
  fix rq s e key
  assume q: "QuerySchema pf qs = Inr rq"
    and w: "dateWindow pf (tNew ev) (rq_from rq) (rq_to rq) = Inr (s, e)"
    and g: "GET pf ev qs c = upstream pf ev c (hasFlag qs ''nocache'') (keyOf rq s e) s e
                             (buildTmUrl key rq s e)"
  from g assms(2) upstream_Data obtain raw where "buildData pf s e raw = Inr d" by metis
  from buildData_ok [OF this] q w show ?thesis by blast
qed



lemma upstream_unchanged:
  "(\<forall>d. outcome (upstream pf ev c nocache k s e url) \<noteq> Returned (Data d)) \<Longrightarrow>
   cacheAfter (upstream pf ev c nocache k s e url) = c"
  by (auto simp: upstream_def split: option.splits sum.splits if_splits)

lemma upstream_store:
  assumes "cacheAfter (upstream pf ev c nocache k s e url) \<noteq> c"
  shows "\<exists>rep d. \<not> nocache \<and> fetch ev url = Some rep \<and> r_ok rep
     \<and> upstreamCalls (upstream pf ev c nocache k s e url) = [url]
     \<and> outcome (upstream pf ev c nocache k s e url) = Returned (Data d)
     \<and> cacheAfter (upstream pf ev c nocache k s e url) = c(k \<mapsto> \<lparr>ts = tStore ev, data = d\<rparr>)"
  using assms by (auto simp: upstream_def split: option.splits sum.splits if_splits)

section \<open>The stages of the handler\<close>

lemma GET_hit:
  assumes "apiKey ev = Some key" "key \<noteq> []" "QuerySchema pf qs = Inr rq"
    and "dateWindow pf (tNew ev) (rq_from rq) (rq_to rq) = Inr (s, e)"
    and "\<not> hasFlag qs ''nocache''"
    and "freshHit c (keyOf rq s e) (tLookup ev) = Some hit"
  shows "GET pf ev qs c = \<lparr>outcome = Returned (Data (data hit)), cacheAfter = c, upstreamCalls = []\<rparr>"
  using assms by (cases key) (simp_all add: GET_def hasFlag_def)

lemma GET_debug:
  assumes "apiKey ev = Some key" "key \<noteq> []" "QuerySchema pf qs = Inr rq"
    and "dateWindow pf (tNew ev) (rq_from rq) (rq_to rq) = Inr (s, e)"
    and "\<not> hasFlag qs ''nocache'' \<longrightarrow> freshHit c (keyOf rq s e) (tLookup ev) = None"
    and "hasFlag qs ''debug''"
  shows "GET pf ev qs c = \<lparr>outcome = Returned (Debug s e (buildTmUrl key rq s e)), cacheAfter = c,
           upstreamCalls = []\<rparr>"
  using assms by (cases key) (auto simp: GET_def hasFlag_def Let_def)

lemma GET_miss:
  assumes "apiKey ev = Some key" "key \<noteq> []" "QuerySchema pf qs = Inr rq"
    and "dateWindow pf (tNew ev) (rq_from rq) (rq_to rq) = Inr (s, e)"
    and "\<not> hasFlag qs ''nocache'' \<longrightarrow> freshHit c (keyOf rq s e) (tLookup ev) = None"
    and "\<not> hasFlag qs ''debug''"
  shows "GET pf ev qs c = upstream pf ev c (hasFlag qs ''nocache'') (keyOf rq s e) s e
           (buildTmUrl key rq s e)"
  using assms by (cases key) (auto simp: GET_def hasFlag_def Let_def)

lemma upstream_ok:
  assumes "fetch ev url = Some r" "r_ok r" "jsonBody r = Some raw" "buildData pf s e raw = Inr d"
  shows "upstream pf ev c nocache k s e url =
     \<lparr>outcome = Returned (Data d),
      cacheAfter = (if nocache then c else c(k \<mapsto> \<lparr>ts = tStore ev, data = d\<rparr>)),
      upstreamCalls = [url]\<rparr>"
  using assms by (simp add: upstream_def)

lemma upstream_failed:
  assumes "fetch ev url = Some r" "\<not> r_ok r"
  shows "upstream pf ev c nocache k s e url =
     \<lparr>outcome = (case errorDetails r of Inl err \<Rightarrow> Threw err
                  | Inr d \<Rightarrow> (case jsonStatusError (status r) of Some err \<Rightarrow> Threw err
                             | None \<Rightarrow> Returned (UpstreamFailed (status r) d url))),
      cacheAfter = c, upstreamCalls = [url]\<rparr>"
  using assms by (simp add: upstream_def split: sum.splits option.splits)

lemma upstream_calls: "upstreamCalls (upstream pf ev c nocache k s e url) = [url]"
  by (simp add: upstream_def split: option.splits sum.splits)

lemma upstream_cache_free:
  "outcome (upstream pf ev c nocache k s e url) = outcome (upstream pf ev c' nocache k s e url)"
  by (simp add: upstream_def split: option.splits sum.splits)

lemma upstream_nocache: "cacheAfter (upstream pf ev c True k s e url) = c"
  by (simp add: upstream_def split: option.splits sum.splits)

lemma map_of_filter_other:
  "k' \<noteq> k \<Longrightarrow> map_of (filter (\<lambda>kv. fst kv \<noteq> k) ps) k' = map_of ps k'"
  by (induction ps) auto

lemma map_of_setParam:
  "map_of (setParam k v ps) k' = (if k' = k then Some v else map_of ps k')"
  by (induction ps) (auto simp: map_of_filter_other)

lemma keyParam_buildTmUrl: "keyParam (buildTmUrl key rq s e) = Some (PStr key)"
proof -
  have "map_of (snd (buildTmUrl key rq s e)) ''apikey''
      = map_of (setParam ''apikey'' (PStr key) []) ''apikey''"
    unfolding buildTmUrl_def Let_def snd_conv
    by (cases "rq_q rq"; cases "the (rq_q rq)"; cases "rq_lat rq"; cases "rq_lng rq"; cases e)
       (simp_all add: map_of_setParam)
  then show ?thesis by (simp add: keyParam_def)
qed

lemma QuerySchema_from: "QuerySchema pf qs = Inr rq \<Longrightarrow> rq_from rq = fromEntries qs ''from''"
  by (auto simp: QuerySchema_def Let_def split: option.splits)

lemma startIso_clock:
  assumes "(case fromS of Some (c # cs) \<Rightarrow> True | _ \<Rightarrow> False) \<or> t1 div 1000 = t2 div 1000"
  shows "startIsoFromYMD pf t1 fromS = startIsoFromYMD pf t2 fromS"
  using assms
  by (auto simp: startIsoFromYMD_def toIsoNoMs_def split: option.splits list.splits)

lemma dateWindow_clock:
  assumes "(case fromS of Some (c # cs) \<Rightarrow> True | _ \<Rightarrow> False) \<or> t1 div 1000 = t2 div 1000"
  shows "dateWindow pf t1 fromS toS = dateWindow pf t2 fromS toS"
  by (simp add: dateWindow_def startIso_clock [OF assms])

lemma upstream_Data_store:
  assumes "outcome (upstream pf ev c False k s e url) = Returned (Data d)"
  shows "cacheAfter (upstream pf ev c False k s e url) = c(k \<mapsto> \<lparr>ts = tStore ev, data = d\<rparr>)"
  using assms by (auto simp: upstream_def split: option.splits sum.splits if_splits)

lemma GET_UpstreamFailed:
  assumes "outcome (GET pf ev qs c) = Returned (UpstreamFailed st d u)"
  shows "\<exists>key rq s e. apiKey ev = Some key
     \<and> GET pf ev qs c = upstream pf ev c (hasFlag qs ''nocache'') (keyOf rq s e) s e
                          (buildTmUrl key rq s e)"
  using assms
  by (auto simp: GET_def Let_def hasFlag_def
      split: option.splits list.splits sum.splits prod.splits if_splits)

lemma upstream_Failed_url:
  "outcome (upstream pf ev c nocache k s e url) = Returned (UpstreamFailed st d u) \<Longrightarrow> u = url"
  by (auto simp: upstream_def split: option.splits sum.splits if_splits)

lemma GET_Debug_url:
  assumes "outcome (GET pf ev qs c) = Returned (Debug s e u)"
  shows "\<exists>key rq. apiKey ev = Some key \<and> u = buildTmUrl key rq s e"
proof -
  have "\<And>nocache k s' e' url. outcome (upstream pf ev c nocache k s' e' url) \<noteq> Returned (Debug s e u)"
    by (auto simp: upstream_def split: option.splits sum.splits if_splits)
  with assms show ?thesis
    by (auto simp: GET_def Let_def split: option.splits list.splits sum.splits prod.splits if_splits)
qed

lemma normalizeEvent_coords:
  "normalizeEvent pf ev = Inr e \<Longrightarrow> venueCoords pf (venueOf ev) = Inr (v_coords (venue e))"
  by (auto simp: normalizeEvent_def Let_def venueOf_def split: if_splits sum.splits)

lemma venueCoords_Inr:
  assumes "venueCoords pf v = Inr cs"
  shows "(cs \<noteq> None) = (truthyOpt (optChain (optChain v ''location'') ''latitude'')
            \<and> truthyOpt (optChain (optChain v ''location'') ''longitude''))"
    and "optChain (optChain v ''location'') ''latitude'' = Some la
       \<Longrightarrow> optChain (optChain v ''location'') ''longitude'' = Some lo
       \<Longrightarrow> truthy la \<Longrightarrow> truthy lo
       \<Longrightarrow> cs = Some \<lparr>c_lat = toNumber pf la, c_lng = toNumber pf lo\<rparr>"
  using assms
  by (auto simp: venueCoords_def Let_def ToNumber_js_def truthyOpt_def orElse_def
      split: if_splits sum.splits)

section \<open>Calendar dates resolve to valid instants\<close>

lemma nth_opt_Cons: "nth_opt (x # xs) n = (if n = 0 then Some x else nth_opt xs (n - 1))"
  by (cases n) auto
























section \<open>Evaluation on the sample host\<close>

lemma host_simps:
  "toNumber utcHost = hostToNumber" "toStringOf utcHost = hostToString"
  "dateParse utcHost = hostDateParse" "utcOfLocal utcHost t = t"
  by (simp_all add: utcHost_def)

lemma host_numbers:
  "Number_js utcHost ''2025'' = Fin 2025"
  "Number_js utcHost ''01'' = Fin 1" "Number_js utcHost ''04'' = Fin 4"
  "Number_js utcHost ''06'' = Fin 6" "Number_js utcHost ''07'' = Fin 7"
  "Number_js utcHost ''10'' = Fin 10" "Number_js utcHost ''12'' = Fin 12"
  "Number_js utcHost ''31'' = Fin 31" "Number_js utcHost ''43'' = Fin 43"
  "Number_js utcHost ''79'' = Fin 79" "Number_js utcHost ''abc'' = NaN"
  by (simp_all add: Number_js_def host_simps hostToNumber_def trim_def isWs_def isDigit_def
      decimalValue_def)

lemma newDate_Fin:
  "newDate pf (Fin yr) (Fin mr) (Fin dr) h mi s ms =
     TimeClip (utcOfLocal pf (MakeDate
       (MakeDay (if 0 \<le> toInteger yr \<and> toInteger yr \<le> 99 then 1900 + toInteger yr
                 else toInteger yr) (toInteger mr) (toInteger dr))
       (MakeTime h mi s ms)))"
  by (simp add: newDate_def Let_def)

lemma toInteger_numeral: "toInteger (numeral n) = numeral n" "toInteger 0 = 0" "toInteger 1 = 1"
  by (simp_all add: toInteger_def)

lemma year_2025: "DayFromYear 2025 = 20089" "DaysInYear 2025 = 365"
  by (simp_all add: DayFromYear_def DaysInYear_def)

lemma months_2025:
  "monthStart 2025 0 = 0" "monthStart 2025 5 = 151" "monthStart 2025 6 = 181"
  "monthStart 2025 11 = 334"
  by (simp_all add: monthStart_def year_2025)

lemma days_2025:
  "MakeDay 2025 0 1 = 20089" "MakeDay 2025 5 1 = 20240" "MakeDay 2025 5 10 = 20249"
  "MakeDay 2025 6 1 = 20270" "MakeDay 2025 6 4 = 20273" "MakeDay 2025 6 31 = 20300"
  "MakeDay 2025 11 31 = 20453"
  by (simp_all add: MakeDay_def year_2025 months_2025)

lemmas clock_defs = MakeDate_def MakeTime_def msPerDay_def TimeClip_def

lemma splits_2025:
  "splitDash ''2025-01-01'' = [''2025'', ''01'', ''01'']"
  "splitDash ''2025-06-01'' = [''2025'', ''06'', ''01'']"
  "splitDash ''2025-06-10'' = [''2025'', ''06'', ''10'']"
  "splitDash ''2025-07-01'' = [''2025'', ''07'', ''01'']"
  "splitDash ''2025-07-04'' = [''2025'', ''07'', ''04'']"
  "splitDash ''2025-07-31'' = [''2025'', ''07'', ''31'']"
  "splitDash ''2025-12-31'' = [''2025'', ''12'', ''31'']"
  "splitDash ''abc'' = [''abc'']"
  by simp_all

lemmas ymd_eval = ymdToLocalStart_def ymdToLocalEnd_def splits_2025 host_numbers orElse_def
  nth_opt_Cons newDate_Fin toInteger_numeral days_2025 host_simps clock_defs

lemma local_2025:
  "ymdToLocalStart utcHost ''2025-01-01'' = Some 1735689600000"
  "ymdToLocalStart utcHost ''2025-06-10'' = Some 1749513600000"
  "ymdToLocalStart utcHost ''2025-07-01'' = Some 1751328000000"
  "ymdToLocalEnd utcHost ''2025-06-01'' = Some 1748822399999"
  "ymdToLocalEnd utcHost ''2025-07-04'' = Some 1751673599999"
  "ymdToLocalEnd utcHost ''2025-07-31'' = Some 1754006399999"
  "ymdToLocalEnd utcHost ''2025-12-31'' = Some 1767225599999"
  "ymdToLocalStart utcHost ''abc'' = None"
  by (simp_all add: ymd_eval newDate_def)

lemmas date_defs = newDate_def toInteger_def MakeDay_def DayFromYear_def monthStart_def
  DaysInYear_def MakeDate_def MakeTime_def msPerDay_def TimeClip_def

lemmas host_defs = utcHost_def hostToNumber_def hostToString_def hostDateParse_def hostParseDay_def
  daysInMonth_def isIsoZ_def isYMD_def trim_def isWs_def isDigit_def decimalValue_def
  Number_js_def String_js_def orElse_def nth_opt_Cons

lemma parse_0704: "hostDateParse ''2025-07-04'' = Some 1751587200000"
  by (simp add: host_defs date_defs)

lemma parse_0704T: "hostDateParse ''2025-07-04T10:00:00Z'' = Some 1751623200000"
  by (simp add: host_defs date_defs)

lemma window_July:
  "dateWindow utcHost t (Some ''2025-07-01'') (Some ''2025-07-31'') = Inr (startJuly, Some endJuly)"
  by (simp add: dateWindow_def startIsoFromYMD_def endIsoFromYMD_def local_2025 toIsoNoMs_def
      swapWindow_def capWindow_def MAX_WINDOW_MS_def startJuly_def endJuly_def)

lemma query_July: "QuerySchema utcHost qsJuly = Inr rqJuly"
  by (simp add: QuerySchema_def qsJuly_def rqJuly_def fromEntries_def zTrimMax80_def
      zNumberOptional_def zNumberDefault_def)

lemma norm_Day: "normalizeEvent utcHost evDay = Inr normDay"
  by (simp add: normalizeEvent_def evDay_def normDay_def classNames_def pickImage_def
      venueCoords_def optChain_def firstOf_def coalesce_def orElse_def truthyOpt_def)

lemma norm_Timed: "normalizeEvent utcHost evTimed = Inr normTimed"
  by (simp add: normalizeEvent_def evTimed_def normTimed_def classNames_def pickImage_def
      venueCoords_def ToNumber_js_def optChain_def firstOf_def coalesce_def truthyOpt_def
      truthy_def host_defs)

lemma Date_parse_July:
  "Date_parse utcHost (start normDay) = Inr (Some 1751587200000)"
  "Date_parse utcHost (start normTimed) = Inr (Some 1751623200000)"
  by (simp_all add: Date_parse_def normDay_def normTimed_def String_js_def utcHost_def
      parse_0704 parse_0704T)

lemma isYMD_0704: "isYMD ''2025-07-04''"
  by (simp add: isYMD_def isDigit_def)

lemma not_isYMD_0704T: "\<not> isYMD ''2025-07-04T10:00:00Z''"
  by (simp add: isYMD_def)

lemma effective_Day: "effectiveInstant utcHost (start normDay) = Inr (Some 1751673599999)"
  using parse_0704 isYMD_0704 local_2025
  by (simp add: effectiveInstant_def normDay_def String_js_def utcHost_def)

lemma effective_Timed: "effectiveInstant utcHost (start normTimed) = Inr (Some 1751623200000)"
  using parse_0704T not_isYMD_0704T
  by (simp add: effectiveInstant_def normTimed_def String_js_def utcHost_def)

lemma keep_Day: "keepEvent utcHost startJuly (Some endJuly) normDay = Inr True"
  by (simp add: keepEvent_def effective_Day inWindow_def startJuly_def endJuly_def)

lemma keep_Timed: "keepEvent utcHost startJuly (Some endJuly) normTimed = Inr True"
  by (simp add: keepEvent_def effective_Timed inWindow_def startJuly_def endJuly_def)

lemma events_July: "normalizeEvents utcHost rawJuly = Inr [normTimed, normDay]"
  by (simp add: normalizeEvents_def rawJuly_def optChain_def norm_Day norm_Timed)

lemma sort_July: "sortEvents utcHost [normTimed, normDay] = Inr [normDay, normTimed]"
  by (simp add: sortEvents_def byStart_def Date_parse_July tvSub_def positive_def)

lemma data_July: "buildData utcHost startJuly (Some endJuly) rawJuly = Inr dataJuly"
  by (simp add: buildData_def events_July keep_Day keep_Timed sort_July dataJuly_def)
     (simp add: rawJuly_def optChain_def coalesce_def orElse_def)

section \<open>The sample requests, evaluated\<close>

lemma keep_Day_any: "keepEvent utcHost s e normDay = Inr (inWindow s e 1751673599999)"
  by (simp add: keepEvent_def effective_Day)

lemma keep_Timed_any: "keepEvent utcHost s e normTimed = Inr (inWindow s e 1751623200000)"
  by (simp add: keepEvent_def effective_Timed)

lemma data_any:
  assumes "inWindow s e 1751673599999" "inWindow s e 1751623200000"
  shows "buildData utcHost s e rawJuly = Inr dataJuly"
  using assms
  by (simp add: buildData_def events_July keep_Day_any keep_Timed_any sort_July dataJuly_def)
     (simp add: rawJuly_def optChain_def coalesce_def orElse_def)

lemma envAt_simps:
  "apiKey (envAt t) = Some ''KEY''" "tNew (envAt t) = t" "tLookup (envAt t) = t"
  "tStore (envAt t) = t"
  "fetch (envAt t) u = Some \<lparr>status = 200, jsonBody = Some rawJuly, textBody = None\<rparr>"
  by (simp_all add: envAt_def)

lemma flags_July:
  "\<not> hasFlag qsJuly ''nocache''" "\<not> hasFlag qsJuly ''debug''"
  "hasFlag qsJulyNocache ''nocache''" "\<not> hasFlag qsJulyNocache ''debug''"
  "\<not> hasFlag qsJulyDebug ''nocache''" "hasFlag qsJulyDebug ''debug''"
  "hasFlag qsJulyNocacheDebug ''nocache''" "hasFlag qsJulyNocacheDebug ''debug''"
  "\<not> hasFlag [] ''nocache''" "\<not> hasFlag [] ''debug''"
  by (simp_all add: hasFlag_def searchParam_def qsJuly_def qsJulyNocache_def qsJulyDebug_def
      qsJulyNocacheDebug_def)

lemma query_flags:
  "QuerySchema utcHost qsJulyNocache = Inr rqJuly"
  "QuerySchema utcHost qsJulyDebug = Inr rqJuly"
  "QuerySchema utcHost qsJulyNocacheDebug = Inr rqJuly"
  "QuerySchema utcHost [] = Inr rqAll"
  by (simp_all add: QuerySchema_def qsJuly_def qsJulyNocache_def qsJulyDebug_def
      qsJulyNocacheDebug_def rqJuly_def rqAll_def fromEntries_def zTrimMax80_def
      zNumberOptional_def zNumberDefault_def)

lemma rqJuly_simps: "rq_from rqJuly = Some ''2025-07-01''" "rq_to rqJuly = Some ''2025-07-31''"
  "rq_from rqAll = None" "rq_to rqAll = None"
  by (simp_all add: rqJuly_def rqAll_def)

lemma window_open: "dateWindow utcHost t None None = Inr ((t div 1000) * 1000, None)"
  by (simp add: dateWindow_def startIsoFromYMD_def endIsoFromYMD_def toIsoNoMs_def
      swapWindow_def capWindow_def)

lemma r_ok_200: "r_ok \<lparr>status = 200, jsonBody = j, textBody = t\<rparr>"
  by (simp add: r_ok_def)

lemma GET_July_fresh:
  assumes "qs \<in> {qsJuly, qsJulyNocache}"
    and "\<not> hasFlag qs ''nocache'' \<longrightarrow> freshHit c keyJuly t = None"
  shows "GET utcHost (envAt t) qs c =
     \<lparr>outcome = Returned (Data dataJuly),
      cacheAfter = (if hasFlag qs ''nocache'' then c else c(keyJuly \<mapsto> \<lparr>ts = t, data = dataJuly\<rparr>)),
      upstreamCalls = [urlJuly]\<rparr>"
proof -
  have q: "QuerySchema utcHost qs = Inr rqJuly" and d: "\<not> hasFlag qs ''debug''"
    using assms(1) query_July query_flags flags_July by auto
  have w: "dateWindow utcHost (tNew (envAt t)) (rq_from rqJuly) (rq_to rqJuly)
      = Inr (startJuly, Some endJuly)"
    by (simp add: rqJuly_simps window_July)
  have h: "\<not> hasFlag qs ''nocache'' \<longrightarrow>
      freshHit c (keyOf rqJuly startJuly (Some endJuly)) (tLookup (envAt t)) = None"
    using assms(2) by (simp add: keyJuly_def envAt_simps)
  have "GET utcHost (envAt t) qs c = upstream utcHost (envAt t) c (hasFlag qs ''nocache'')
      (keyOf rqJuly startJuly (Some endJuly)) startJuly (Some endJuly)
      (buildTmUrl ''KEY'' rqJuly startJuly (Some endJuly))"
    by (rule GET_miss [OF envAt_simps(1) _ q w h d]) simp
  also have "\<dots> = \<lparr>outcome = Returned (Data dataJuly),
      cacheAfter = (if hasFlag qs ''nocache'' then c
        else c(keyOf rqJuly startJuly (Some endJuly) \<mapsto> \<lparr>ts = tStore (envAt t), data = dataJuly\<rparr>)),
      upstreamCalls = [buildTmUrl ''KEY'' rqJuly startJuly (Some endJuly)]\<rparr>"
    by (rule upstream_ok [OF envAt_simps(5) r_ok_200 _ data_July]) simp
  finally show ?thesis by (simp add: keyJuly_def urlJuly_def envAt_simps)
qed

lemma cacheJuly_eq: "cacheJuly = [keyJuly \<mapsto> \<lparr>ts = 0, data = dataJuly\<rparr>]"
  unfolding cacheJuly_def
  by (subst GET_July_fresh) (simp_all add: freshHit_def flags_July)

lemma freshHit_July: "t < TTL_MS \<Longrightarrow> freshHit cacheJuly keyJuly t = Some \<lparr>ts = 0, data = dataJuly\<rparr>"
  by (simp add: cacheJuly_eq freshHit_def)

lemma GET_July_hit:
  assumes "qs \<in> {qsJuly, qsJulyDebug}" "t < TTL_MS"
  shows "GET utcHost (envAt t) qs cacheJuly =
     \<lparr>outcome = Returned (Data dataJuly), cacheAfter = cacheJuly, upstreamCalls = []\<rparr>"
proof -
  have q: "QuerySchema utcHost qs = Inr rqJuly" and n: "\<not> hasFlag qs ''nocache''"
    using assms(1) query_July query_flags flags_July by auto
  have w: "dateWindow utcHost (tNew (envAt t)) (rq_from rqJuly) (rq_to rqJuly)
      = Inr (startJuly, Some endJuly)"
    by (simp add: rqJuly_simps window_July)
  have h: "freshHit cacheJuly (keyOf rqJuly startJuly (Some endJuly)) (tLookup (envAt t))
      = Some \<lparr>ts = 0, data = dataJuly\<rparr>"
    using freshHit_July [OF assms(2)] by (simp add: keyJuly_def envAt_simps)
  from GET_hit [OF envAt_simps(1) _ q w n h] show ?thesis by simp
qed

lemma GET_July_debug:
  assumes "qs \<in> {qsJulyDebug, qsJulyNocacheDebug}"
    and "\<not> hasFlag qs ''nocache'' \<longrightarrow> freshHit c keyJuly t = None"
  shows "GET utcHost (envAt t) qs c =
     \<lparr>outcome = Returned (Debug startJuly (Some endJuly) urlJuly), cacheAfter = c,
      upstreamCalls = []\<rparr>"
proof -
  have q: "QuerySchema utcHost qs = Inr rqJuly" and d: "hasFlag qs ''debug''"
    using assms(1) query_flags flags_July by auto
  have w: "dateWindow utcHost (tNew (envAt t)) (rq_from rqJuly) (rq_to rqJuly)
      = Inr (startJuly, Some endJuly)"
    by (simp add: rqJuly_simps window_July)
  have h: "\<not> hasFlag qs ''nocache'' \<longrightarrow>
      freshHit c (keyOf rqJuly startJuly (Some endJuly)) (tLookup (envAt t)) = None"
    using assms(2) by (simp add: keyJuly_def envAt_simps)
  from GET_debug [OF envAt_simps(1) _ q w h d] show ?thesis by (simp add: urlJuly_def)
qed

lemma envDown_simps:
  "apiKey envDown = Some ''KEY''" "tNew envDown = 0" "tLookup envDown = 0"
  "fetch envDown u = Some \<lparr>status = 401,
     jsonBody = Some (JObj [(''fault'', JStr ''Invalid ApiKey'')]), textBody = None\<rparr>"
  by (simp_all add: envDown_def)

lemma GET_July_down:
  "GET utcHost envDown qsJuly Map.empty =
     \<lparr>outcome = Returned (UpstreamFailed 401 (DJson (JObj [(''fault'', JStr ''Invalid ApiKey'')])) urlJuly),
      cacheAfter = Map.empty, upstreamCalls = [urlJuly]\<rparr>"
proof -
  have w: "dateWindow utcHost (tNew envDown) (rq_from rqJuly) (rq_to rqJuly)
      = Inr (startJuly, Some endJuly)"
    by (simp add: rqJuly_simps window_July)
  have h: "\<not> hasFlag qsJuly ''nocache'' \<longrightarrow>
      freshHit Map.empty (keyOf rqJuly startJuly (Some endJuly)) (tLookup envDown) = None"
    by (simp add: freshHit_def)
  have "GET utcHost envDown qsJuly Map.empty = upstream utcHost envDown Map.empty
      (hasFlag qsJuly ''nocache'') (keyOf rqJuly startJuly (Some endJuly)) startJuly (Some endJuly)
      (buildTmUrl ''KEY'' rqJuly startJuly (Some endJuly))"
    by (rule GET_miss [OF envDown_simps(1) _ query_July w h flags_July(2)]) simp
  also have "\<dots> = \<lparr>outcome = Returned (UpstreamFailed 401
        (DJson (JObj [(''fault'', JStr ''Invalid ApiKey'')])) urlJuly),
      cacheAfter = Map.empty, upstreamCalls = [urlJuly]\<rparr>"
    by (subst upstream_failed [OF envDown_simps(4)])
       (simp_all add: r_ok_def errorDetails_def jsonStatusError_def urlJuly_def)
  finally show ?thesis .
qed

lemma GET_open:
  assumes "(t div 1000) * 1000 \<le> 1751623200000"
    and "freshHit c (keyOf rqAll ((t div 1000) * 1000) None) t = None"
  shows "GET utcHost (envAt t) [] c =
     \<lparr>outcome = Returned (Data dataJuly),
      cacheAfter = c(keyOf rqAll ((t div 1000) * 1000) None \<mapsto> \<lparr>ts = t, data = dataJuly\<rparr>),
      upstreamCalls = [buildTmUrl ''KEY'' rqAll ((t div 1000) * 1000) None]\<rparr>"
proof -
  let ?s = "(t div 1000) * 1000"
  have w: "dateWindow utcHost (tNew (envAt t)) (rq_from rqAll) (rq_to rqAll) = Inr (?s, None)"
    by (simp add: rqJuly_simps window_open envAt_simps)
  have h: "\<not> hasFlag [] ''nocache'' \<longrightarrow>
      freshHit c (keyOf rqAll ?s None) (tLookup (envAt t)) = None"
    using assms(2) by (simp add: envAt_simps)
  have d: "buildData utcHost ?s None rawJuly = Inr dataJuly"
    using assms(1) by (intro data_any) (simp_all add: inWindow_def)
  have "GET utcHost (envAt t) [] c = upstream utcHost (envAt t) c (hasFlag [] ''nocache'')
      (keyOf rqAll ?s None) ?s None (buildTmUrl ''KEY'' rqAll ?s None)"
    by (rule GET_miss [OF envAt_simps(1) _ query_flags(4) w h flags_July(10)]) simp
  also have "\<dots> = \<lparr>outcome = Returned (Data dataJuly),
      cacheAfter = (if hasFlag [] ''nocache'' then c
        else c(keyOf rqAll ?s None \<mapsto> \<lparr>ts = tStore (envAt t), data = dataJuly\<rparr>)),
      upstreamCalls = [buildTmUrl ''KEY'' rqAll ?s None]\<rparr>"
    by (rule upstream_ok [OF envAt_simps(5) r_ok_200 _ d]) simp
  finally show ?thesis by (simp add: flags_July envAt_simps)
qed

lemma query_bad:
  "QuerySchema utcHost qsBadLat = Inl [''lat'']"
  "QuerySchema utcHost qsBadFrom = Inr (rqAll\<lparr>rq_from := Some ''abc''\<rparr>)"
  by (simp_all add: QuerySchema_def qsBadLat_def qsBadFrom_def rqAll_def fromEntries_def
      zTrimMax80_def zNumberOptional_def zNumberDefault_def zCoerceNumber_def issue_def
      host_defs)

lemma window_bad: "dateWindow utcHost t (Some ''abc'') None = Inl RangeError"
  by (simp add: dateWindow_def startIsoFromYMD_def local_2025 toIsoNoMs_def)

lemma GET_bad:
  "GET utcHost (envAt 0) qsBadLat c =
     \<lparr>outcome = Returned (InvalidQuery [''lat'']), cacheAfter = c, upstreamCalls = []\<rparr>"
  "GET utcHost (envAt 0) qsBadFrom c =
     \<lparr>outcome = Threw RangeError, cacheAfter = c, upstreamCalls = []\<rparr>"
  "GET utcHost envNoKey qs c =
     \<lparr>outcome = Returned MissingKey, cacheAfter = c, upstreamCalls = []\<rparr>"
  by (simp_all add: GET_def envAt_simps query_bad window_bad rqAll_def envNoKey_def)






lemma window_year:
  "dateWindow utcHost 0 (Some ''2025-01-01'') (Some ''2025-12-31'')
     = Inr (1735689600000, Some 1751241600000)"
  by (simp add: dateWindow_def startIsoFromYMD_def endIsoFromYMD_def local_2025
      toIsoNoMs_def swapWindow_def capWindow_def MAX_WINDOW_MS_def TimeClip_def)

lemma coords_samples:
  "coordsOf utcHost evTimed = Some \<lparr>c_lat = Fin 43, c_lng = Fin 79\<rparr>"
  "coordsOf utcHost evBadCoords = Some \<lparr>c_lat = NaN, c_lng = Fin 10\<rparr>"
  "latitudeOf evBadCoords = Some (JStr ''abc'')"
  "longitudeOf evBadCoords = Some (JStr ''10'')"
  "latitudeOf evTimed = Some (JStr ''43'')"
  "longitudeOf evTimed = Some (JStr ''79'')"
  "toNumber utcHost (JStr ''abc'') = NaN"
  by (simp_all add: coordsOf_def norm_Timed normTimed_def normalizeEvent_def evBadCoords_def
      evTimed_def classNames_def pickImage_def venueCoords_def ToNumber_js_def latitudeOf_def
      longitudeOf_def venueOf_def optChain_def firstOf_def coalesce_def truthyOpt_def truthy_def
      host_defs)

section \<open>A date-only start of the year 0050\<close>















section \<open>The claims\<close>




text \<open>
  Claim C2, as the code has it. The \<open>results\<close> list of every response is sorted ascending
  by the instant \<^verbatim>\<open>Date.parse\<close> gives each \<open>start\<close> (line 396): every adjacent pair has its
  two parsed instants, in order. The sort key is the parsed instant also for a
  \<^verbatim>\<open>YYYY-MM-DD\<close> start, which \<^verbatim>\<open>Date.parse\<close> reads as midnight UTC; it is not the effective
  instant the filter uses.
\<close>

theorem results_sorted_by_parsed_start:
  assumes "reachable pf c" and "outcome (GET pf ev qs c) = Returned (Data d)"
  shows "ascendingBy (parseStart pf) (results d)"
  using GET_Data_ok [OF reachable_cacheOk [OF assms(1)] assms(2)] by blast

theorem results_sorted_by_parsed_start_witness:
  "reachable utcHost Map.empty
   \<and> outcome (GET utcHost (envAt 0) qsJuly Map.empty) = Returned (Data dataJuly)
   \<and> ascendingBy (parseStart utcHost) (results dataJuly)"
proof -
  have r: "reachable utcHost Map.empty" by (rule reachable.initial)
  have o: "outcome (GET utcHost (envAt 0) qsJuly Map.empty) = Returned (Data dataJuly)"
    by (simp add: GET_July_fresh freshHit_def)
  from results_sorted_by_parsed_start [OF r o] r o show ?thesis by simp
qed

text \<open>
  The claim as stated, ordering by effective instant, fails: upstream returns a concert
  at 2025-07-04T10:00:00Z and a parade dated 2025-07-04. The parade parses to midnight
  and is sorted first, but its effective instant is the end of that day, after the
  concert's.
\<close>

theorem results_not_sorted_by_effective_instant:
  "resultsOf (GET utcHost (envAt 0) qsJuly Map.empty) = [normDay, normTimed]
   \<and> effectiveTime utcHost normDay = Some 1751673599999
   \<and> effectiveTime utcHost normTimed = Some 1751623200000
   \<and> \<not> ascendingBy (effectiveTime utcHost) (resultsOf (GET utcHost (envAt 0) qsJuly Map.empty))"
proof -
  have "resultsOf (GET utcHost (envAt 0) qsJuly Map.empty) = [normDay, normTimed]"
    by (simp add: resultsOf_def GET_July_fresh freshHit_def dataJuly_def)
  moreover have "effectiveTime utcHost normDay = Some 1751673599999"
    "effectiveTime utcHost normTimed = Some 1751623200000"
    by (simp_all add: effectiveTime_def effective_Day effective_Timed)
  ultimately show ?thesis by simp
qed

text \<open>
  Claim C3, as the code has it. Take two invocations with the same query, neither
  carrying the bypass flag, under the same configured key. If the first was a cache miss
  that completed a successful upstream round trip, the second reads the clock less than
  the TTL after the first stored its entry, and either \<open>from\<close> is given or both
  invocations read the clock within the same second (so that both resolve the same
  window start), then the second returns the response of the first from the cache, makes
  no upstream call and leaves the cache as it is.
\<close>

theorem repeat_within_ttl_is_cache_hit:
  assumes nc: "\<not> hasFlag qs ''nocache''"
    and first: "outcome (GET pf ev1 qs c) = Returned (Data d)"
    and miss: "upstreamCalls (GET pf ev1 qs c) \<noteq> []"
    and key: "apiKey ev2 = apiKey ev1"
    and clock: "fromGiven qs \<or> tNew ev2 div 1000 = tNew ev1 div 1000"
    and ttl: "tLookup ev2 - tStore ev1 < TTL_MS"
  shows "GET pf ev2 qs (cacheAfter (GET pf ev1 qs c)) =
     \<lparr>outcome = Returned (Data d), cacheAfter = cacheAfter (GET pf ev1 qs c), upstreamCalls = []\<rparr>"
  using GET_cases [of pf ev1 qs c]
proof (elim disjE exE conjE)
  fix r
  assume "GET pf ev1 qs c = \<lparr>outcome = r, cacheAfter = c, upstreamCalls = []\<rparr>"
  with miss show ?thesis by simp
next
  fix rq s e hit
  assume "GET pf ev1 qs c = \<lparr>outcome = Returned (Data (data hit)), cacheAfter = c, upstreamCalls = []\<rparr>"
  with miss show ?thesis by simp
next
  fix rq s e k
  assume q: "QuerySchema pf qs = Inr rq"
    and w: "dateWindow pf (tNew ev1) (rq_from rq) (rq_to rq) = Inr (s, e)"
    and k: "apiKey ev1 = Some k" "k \<noteq> []"
    and g: "GET pf ev1 qs c = upstream pf ev1 c (hasFlag qs ''nocache'') (keyOf rq s e) s e
                             (buildTmUrl k rq s e)"
  let ?ent = "\<lparr>ts = tStore ev1, data = d\<rparr>"
  from g nc first have c1: "cacheAfter (GET pf ev1 qs c) = c(keyOf rq s e \<mapsto> ?ent)"
    by (simp add: upstream_Data_store)
  have "(case rq_from rq of Some (c # cs) \<Rightarrow> True | _ \<Rightarrow> False) \<or> tNew ev2 div 1000 = tNew ev1 div 1000"
    using clock QuerySchema_from [OF q] by (simp add: fromGiven_def)
  then have w2: "dateWindow pf (tNew ev2) (rq_from rq) (rq_to rq) = Inr (s, e)"
    using w dateWindow_clock by metis
  have h: "freshHit (cacheAfter (GET pf ev1 qs c)) (keyOf rq s e) (tLookup ev2) = Some ?ent"
    using ttl by (simp add: c1 freshHit_def)
  from key k have k2: "apiKey ev2 = Some k" by simp
  from GET_hit [OF k2 k(2) q w2 nc h] show ?thesis by simp
qed

theorem repeat_within_ttl_is_cache_hit_witness:
  "fromGiven qsJuly
   \<and> tLookup (envAt 1000) - tStore (envAt 0) < TTL_MS
   \<and> GET utcHost (envAt 1000) qsJuly (cacheAfter (GET utcHost (envAt 0) qsJuly Map.empty)) =
       \<lparr>outcome = Returned (Data dataJuly),
        cacheAfter = cacheAfter (GET utcHost (envAt 0) qsJuly Map.empty), upstreamCalls = []\<rparr>"
proof -
  have g: "GET utcHost (envAt 0) qsJuly Map.empty =
     \<lparr>outcome = Returned (Data dataJuly),
      cacheAfter = [keyJuly \<mapsto> \<lparr>ts = 0, data = dataJuly\<rparr>], upstreamCalls = [urlJuly]\<rparr>"
    by (simp add: GET_July_fresh freshHit_def flags_July)
  have f: "fromGiven qsJuly" by (simp add: fromGiven_def fromEntries_def qsJuly_def)
  have t: "tLookup (envAt 1000) - tStore (envAt 0) < TTL_MS" by (simp add: envAt_simps TTL_MS_def)
  have "outcome (GET utcHost (envAt 0) qsJuly Map.empty) = Returned (Data dataJuly)"
    "upstreamCalls (GET utcHost (envAt 0) qsJuly Map.empty) \<noteq> []"
    "apiKey (envAt 1000) = apiKey (envAt 0)"
    by (simp_all add: g envAt_simps)
  from repeat_within_ttl_is_cache_hit [OF flags_July(1) this(1,2,3) _ t] f t
  show ?thesis by simp
qed

text \<open>
  The claim as stated, which includes queries that omit \<open>from\<close>, fails: without \<open>from\<close>
  the window starts at the clock reading truncated to the second, and the cache key
  holds that start. The same query one second later has another key and goes upstream
  again.
\<close>

theorem repeat_without_from_calls_upstream:
  "outcome (GET utcHost (envAt 0) [] Map.empty) = Returned (Data dataJuly)
   \<and> tLookup (envAt 1000) - tStore (envAt 0) < TTL_MS
   \<and> upstreamCalls (GET utcHost (envAt 1000) [] (cacheAfter (GET utcHost (envAt 0) [] Map.empty)))
       = [buildTmUrl ''KEY'' rqAll 1000 None]"
proof -
  have g: "GET utcHost (envAt 0) [] Map.empty =
     \<lparr>outcome = Returned (Data dataJuly),
      cacheAfter = [keyOf rqAll 0 None \<mapsto> \<lparr>ts = 0, data = dataJuly\<rparr>],
      upstreamCalls = [buildTmUrl ''KEY'' rqAll 0 None]\<rparr>"
    using GET_open [of 0 Map.empty] by (simp add: freshHit_def)
  have "freshHit [keyOf rqAll 0 None \<mapsto> \<lparr>ts = 0, data = dataJuly\<rparr>]
      (keyOf rqAll ((1000 div 1000) * 1000) None) 1000 = None"
    by (simp add: freshHit_def keyOf_def)
  from GET_open [OF _ this] g show ?thesis by (simp add: envAt_simps TTL_MS_def)
qed



text \<open>
  Claim C5. Whenever the resolved window has an end, \<open>end - start\<close> is at most 180 days.
  The start is the earlier of the two resolved bounds and the clamp leaves it unchanged;
  the end is the later bound, or \<open>start\<close> plus 180 days when the later bound lies further
  away.
\<close>

theorem window_capped:
  assumes "dateWindow pf now fromS toS = Inr (s, Some e)"
  shows "e - s \<le> MAX_WINDOW_MS \<and>
    (\<exists>a b. startIsoFromYMD pf now fromS = Inr a \<and> endIsoFromYMD pf toS = Inr (Some b)
       \<and> s = min a b \<and> e = min (max a b) (min a b + MAX_WINDOW_MS))"
proof -
  from assms obtain a e0 where a: "startIsoFromYMD pf now fromS = Inr a"
    and e0: "endIsoFromYMD pf toS = Inr e0"
    and cap: "capWindow (fst (swapWindow a e0)) (snd (swapWindow a e0)) = Inr (s, Some e)"
    by (auto simp: dateWindow_def split: sum.splits prod.splits)
  from cap obtain b where b: "e0 = Some b"
    by (cases e0) (auto simp: swapWindow_def capWindow_def)
  have am: "a mod 1000 = 0" using a by (rule startIso_whole_second)
  have bm: "b mod 1000 = 0" using e0 b endIso_whole_second by blast
  have sw: "swapWindow a (Some b) = (min a b, Some (max a b))"
    by (auto simp: swapWindow_def)
  have "min a b mod 1000 = 0" using am bm by (simp add: min_def)
  with cap b sw have se: "s = min a b \<and> e = min (max a b) (min a b + MAX_WINDOW_MS)"
    using capWindow_Some by simp
  then have "e - s \<le> MAX_WINDOW_MS" by auto
  with se a e0 b show ?thesis by auto
qed

text \<open>The whole of 2025 is cut to 180 days from January 1: the end is June 30.\<close>

theorem window_capped_witness:
  "dateWindow utcHost 0 (Some ''2025-01-01'') (Some ''2025-12-31'')
     = Inr (1735689600000, Some 1751241600000)
   \<and> (1751241600000 :: int) - 1735689600000 \<le> MAX_WINDOW_MS
   \<and> (1751241600000 :: int) = 1735689600000 + MAX_WINDOW_MS"
proof -
  from window_capped [OF window_year] show ?thesis
    by (simp add: window_year MAX_WINDOW_MS_def)
qed

text \<open>
  Claim C6 says that every query, also one whose \<open>from\<close> or \<open>to\<close> is not of the form
  \<^verbatim>\<open>YYYY-MM-DD\<close>, gets a structured validation failure and never an uncaught exception.
  The schema does reject a value that is not a number where one is required, but it
  takes any string for \<open>from\<close> and \<open>to\<close>: \<open>from=abc\<close> passes validation,
  \<open>ymdToLocalStart\<close> makes an invalid date of it, and \<^verbatim>\<open>toISOString\<close> throws a
  \<^verbatim>\<open>RangeError\<close> that nothing in the handler catches.
\<close>

theorem malformed_from_throws:
  "outcome (GET utcHost (envAt 0) qsBadLat Map.empty) = Returned (InvalidQuery [''lat''])
   \<and> QuerySchema utcHost qsBadFrom = Inr (rqAll\<lparr>rq_from := Some ''abc''\<rparr>)
   \<and> outcome (GET utcHost (envAt 0) qsBadFrom Map.empty) = Threw RangeError"
  by (simp add: GET_bad query_bad)

text \<open>
  Claim C7, as the code has it. A request with the bypass flag skips the cache lookup
  and the cache store: the cache after the request is the cache before it, and the
  response and the upstream calls do not depend on what the cache holds. When such a
  request passes validation, its window resolves and it does not carry the debug flag,
  the upstream service is called, also when an entry with the same fingerprint exists
  and is within the TTL.
\<close>

theorem nocache_skips_lookup_and_store:
  assumes "hasFlag qs ''nocache''"
  shows "cacheAfter (GET pf ev qs c) = c
     \<and> outcome (GET pf ev qs c) = outcome (GET pf ev qs c')
     \<and> upstreamCalls (GET pf ev qs c) = upstreamCalls (GET pf ev qs c')
     \<and> (\<forall>key rq s e. apiKey ev = Some key \<and> key \<noteq> [] \<and> QuerySchema pf qs = Inr rq
           \<and> dateWindow pf (tNew ev) (rq_from rq) (rq_to rq) = Inr (s, e)
           \<and> \<not> hasFlag qs ''debug''
           \<longrightarrow> upstreamCalls (GET pf ev qs c) = [buildTmUrl key rq s e])"
proof (intro conjI allI impI)
  show "cacheAfter (GET pf ev qs c) = c"
    using assms
    by (auto simp: GET_def hasFlag_def Let_def upstream_nocache
        split: option.splits list.splits sum.splits prod.splits)
next
  show "outcome (GET pf ev qs c) = outcome (GET pf ev qs c')"
    using assms upstream_cache_free
    by (auto simp: GET_def hasFlag_def Let_def
        split: option.splits list.splits sum.splits prod.splits)
next
  show "upstreamCalls (GET pf ev qs c) = upstreamCalls (GET pf ev qs c')"
    using assms
    by (auto simp: GET_def hasFlag_def Let_def upstream_calls
        split: option.splits list.splits sum.splits prod.splits)
next
  fix key rq s e
  assume "apiKey ev = Some key \<and> key \<noteq> [] \<and> QuerySchema pf qs = Inr rq
           \<and> dateWindow pf (tNew ev) (rq_from rq) (rq_to rq) = Inr (s, e)
           \<and> \<not> hasFlag qs ''debug''"
  with assms show "upstreamCalls (GET pf ev qs c) = [buildTmUrl key rq s e]"
    by (simp add: GET_miss upstream_calls)
qed

text \<open>The July request with the bypass flag, one second after the same request was
  cached: the entry is fresh, upstream is called all the same, and the cache stays.\<close>

theorem nocache_skips_lookup_and_store_witness:
  "hasFlag qsJulyNocache ''nocache''
   \<and> freshHit cacheJuly keyJuly 1000 = Some \<lparr>ts = 0, data = dataJuly\<rparr>
   \<and> cacheAfter (GET utcHost (envAt 1000) qsJulyNocache cacheJuly) = cacheJuly
   \<and> upstreamCalls (GET utcHost (envAt 1000) qsJulyNocache cacheJuly) = [urlJuly]"
proof -
  have w: "dateWindow utcHost (tNew (envAt 1000)) (rq_from rqJuly) (rq_to rqJuly)
      = Inr (startJuly, Some endJuly)"
    by (simp add: rqJuly_simps window_July)
  from nocache_skips_lookup_and_store [OF flags_July(3), of utcHost "envAt 1000" cacheJuly cacheJuly]
  have "cacheAfter (GET utcHost (envAt 1000) qsJulyNocache cacheJuly) = cacheJuly"
    and "apiKey (envAt 1000) = Some ''KEY'' \<and> ''KEY'' \<noteq> [] \<and> QuerySchema utcHost qsJulyNocache = Inr rqJuly
           \<and> dateWindow utcHost (tNew (envAt 1000)) (rq_from rqJuly) (rq_to rqJuly) = Inr (startJuly, Some endJuly)
           \<and> \<not> hasFlag qsJulyNocache ''debug''
           \<longrightarrow> upstreamCalls (GET utcHost (envAt 1000) qsJulyNocache cacheJuly)
                = [buildTmUrl ''KEY'' rqJuly startJuly (Some endJuly)]"
    by blast+
  then show ?thesis
    using w by (simp add: flags_July query_flags envAt_simps freshHit_July TTL_MS_def urlJuly_def)
qed

text \<open>
  The claim as stated, an upstream call for every request with the bypass flag, fails
  when the request also carries the debug flag: the debug hook (lines 323-326) returns
  before the fetch.
\<close>

theorem nocache_with_debug_makes_no_upstream_call:
  "hasFlag qsJulyNocacheDebug ''nocache''
   \<and> QuerySchema utcHost qsJulyNocacheDebug = Inr rqJuly
   \<and> freshHit cacheJuly keyJuly 1000 = Some \<lparr>ts = 0, data = dataJuly\<rparr>
   \<and> upstreamCalls (GET utcHost (envAt 1000) qsJulyNocacheDebug cacheJuly) = []"
  by (simp add: flags_July query_flags freshHit_July TTL_MS_def GET_July_debug)

text \<open>
  Claim C8. The handler stores a cache entry only on a cache miss that completes a
  successful upstream round trip. A request that ends in anything but a data response
  (a validation failure, the missing-key error, an upstream response that is not 2xx, a
  debug response or an exception) leaves the cache as it was; and whenever the cache
  changes, the request had no bypass flag and no fresh entry, made one upstream call
  that answered 2xx, returned the data, and the change is the one entry for its key.
\<close>

theorem store_only_after_round_trip:
  "((\<forall>d. outcome (GET pf ev qs c) \<noteq> Returned (Data d)) \<longrightarrow> cacheAfter (GET pf ev qs c) = c)
   \<and> (cacheAfter (GET pf ev qs c) \<noteq> c \<longrightarrow>
        (\<exists>rq s e url rep d.
           QuerySchema pf qs = Inr rq
         \<and> dateWindow pf (tNew ev) (rq_from rq) (rq_to rq) = Inr (s, e)
         \<and> \<not> hasFlag qs ''nocache''
         \<and> freshHit c (keyOf rq s e) (tLookup ev) = None
         \<and> upstreamCalls (GET pf ev qs c) = [url]
         \<and> fetch ev url = Some rep \<and> r_ok rep
         \<and> outcome (GET pf ev qs c) = Returned (Data d)
         \<and> cacheAfter (GET pf ev qs c) = c(keyOf rq s e \<mapsto> \<lparr>ts = tStore ev, data = d\<rparr>)))"
  using GET_cases [of pf ev qs c]
proof (elim disjE exE conjE)
  fix r
  assume "GET pf ev qs c = \<lparr>outcome = r, cacheAfter = c, upstreamCalls = []\<rparr>"
  then show ?thesis by simp
next
  fix rq s e hit
  assume "GET pf ev qs c = \<lparr>outcome = Returned (Data (data hit)), cacheAfter = c, upstreamCalls = []\<rparr>"
  then show ?thesis by simp
next
  fix rq s e key
  assume q: "QuerySchema pf qs = Inr rq"
    and w: "dateWindow pf (tNew ev) (rq_from rq) (rq_to rq) = Inr (s, e)"
    and h: "\<not> hasFlag qs ''nocache'' \<longrightarrow> freshHit c (keyOf rq s e) (tLookup ev) = None"
    and g: "GET pf ev qs c = upstream pf ev c (hasFlag qs ''nocache'') (keyOf rq s e) s e
                             (buildTmUrl key rq s e)"
  show ?thesis
  proof (intro conjI impI)
    assume "\<forall>d. outcome (GET pf ev qs c) \<noteq> Returned (Data d)"
    then show "cacheAfter (GET pf ev qs c) = c"
      unfolding g by (rule upstream_unchanged)
  next
    assume "cacheAfter (GET pf ev qs c) \<noteq> c"
    from upstream_store [OF this [unfolded g]] h q w
    show "\<exists>rq s e url rep d.
           QuerySchema pf qs = Inr rq
         \<and> dateWindow pf (tNew ev) (rq_from rq) (rq_to rq) = Inr (s, e)
         \<and> \<not> hasFlag qs ''nocache''
         \<and> freshHit c (keyOf rq s e) (tLookup ev) = None
         \<and> upstreamCalls (GET pf ev qs c) = [url]
         \<and> fetch ev url = Some rep \<and> r_ok rep
         \<and> outcome (GET pf ev qs c) = Returned (Data d)
         \<and> cacheAfter (GET pf ev qs c) = c(keyOf rq s e \<mapsto> \<lparr>ts = tStore ev, data = d\<rparr>)"
      unfolding g by blast
  qed
qed

text \<open>A validation failure, a missing key and an upstream 401 each leave the July entry
  alone; the July request on the empty cache stores it.\<close>

theorem store_only_after_round_trip_witness:
  "outcome (GET utcHost (envAt 0) qsBadLat cacheJuly) = Returned (InvalidQuery [''lat''])
   \<and> cacheAfter (GET utcHost (envAt 0) qsBadLat cacheJuly) = cacheJuly
   \<and> outcome (GET utcHost envNoKey qsJuly cacheJuly) = Returned MissingKey
   \<and> cacheAfter (GET utcHost envNoKey qsJuly cacheJuly) = cacheJuly
   \<and> outcome (GET utcHost envDown qsJuly Map.empty)
       = Returned (UpstreamFailed 401 (DJson (JObj [(''fault'', JStr ''Invalid ApiKey'')])) urlJuly)
   \<and> cacheAfter (GET utcHost envDown qsJuly Map.empty) = Map.empty
   \<and> outcome (GET utcHost (envAt 0) qsJuly Map.empty) = Returned (Data dataJuly)
   \<and> cacheAfter (GET utcHost (envAt 0) qsJuly Map.empty) = [keyJuly \<mapsto> \<lparr>ts = 0, data = dataJuly\<rparr>]"
proof -
  have o: "outcome (GET utcHost (envAt 0) qsBadLat cacheJuly) = Returned (InvalidQuery [''lat''])"
    "outcome (GET utcHost envNoKey qsJuly cacheJuly) = Returned MissingKey"
    "outcome (GET utcHost envDown qsJuly Map.empty)
       = Returned (UpstreamFailed 401 (DJson (JObj [(''fault'', JStr ''Invalid ApiKey'')])) urlJuly)"
    by (simp_all add: GET_bad GET_July_down)
  from store_only_after_round_trip [of utcHost "envAt 0" qsBadLat cacheJuly] o(1)
  have 1: "cacheAfter (GET utcHost (envAt 0) qsBadLat cacheJuly) = cacheJuly" by simp
  from store_only_after_round_trip [of utcHost envNoKey qsJuly cacheJuly] o(2)
  have 2: "cacheAfter (GET utcHost envNoKey qsJuly cacheJuly) = cacheJuly" by simp
  from store_only_after_round_trip [of utcHost envDown qsJuly Map.empty] o(3)
  have 3: "cacheAfter (GET utcHost envDown qsJuly Map.empty) = Map.empty" by simp
  have 4: "GET utcHost (envAt 0) qsJuly Map.empty =
     \<lparr>outcome = Returned (Data dataJuly),
      cacheAfter = [keyJuly \<mapsto> \<lparr>ts = 0, data = dataJuly\<rparr>], upstreamCalls = [urlJuly]\<rparr>"
    by (simp add: GET_July_fresh freshHit_def flags_July)
  from o 1 2 3 4 show ?thesis by simp
qed

text \<open>
  Claim C9, as the code has it. The normalised venue has coordinates exactly when the
  latitude and the longitude of the upstream venue location are both present and truthy
  (lines 367-373 test the two values, not what \<^verbatim>\<open>Number\<close> makes of them); the pair then
  holds \<^verbatim>\<open>Number\<close> of the latitude and \<^verbatim>\<open>Number\<close> of the longitude. In every other case
  the coordinates are undefined.
\<close>

theorem coords_populated_iff_truthy:
  assumes "normalizeEvent pf ev = Inr e"
  shows "(v_coords (venue e) \<noteq> None) = (truthyOpt (latitudeOf ev) \<and> truthyOpt (longitudeOf ev))
     \<and> (\<forall>la lo. latitudeOf ev = Some la \<and> longitudeOf ev = Some lo \<and> truthy la \<and> truthy lo
          \<longrightarrow> v_coords (venue e) = Some \<lparr>c_lat = toNumber pf la, c_lng = toNumber pf lo\<rparr>)"
  using venueCoords_Inr [OF normalizeEvent_coords [OF assms]]
  by (auto simp: latitudeOf_def longitudeOf_def)

theorem coords_populated_iff_truthy_witness:
  "normalizeEvent utcHost evTimed = Inr normTimed
   \<and> truthyOpt (latitudeOf evTimed) \<and> truthyOpt (longitudeOf evTimed)
   \<and> v_coords (venue normTimed) = Some \<lparr>c_lat = Fin 43, c_lng = Fin 79\<rparr>"
proof -
  have t: "truthy (JStr ''43'')" "truthy (JStr ''79'')" by (simp_all add: truthy_def)
  from coords_populated_iff_truthy [OF norm_Timed]
  have "latitudeOf evTimed = Some (JStr ''43'') \<and> longitudeOf evTimed = Some (JStr ''79'')
      \<and> truthy (JStr ''43'') \<and> truthy (JStr ''79'')
      \<longrightarrow> v_coords (venue normTimed)
          = Some \<lparr>c_lat = toNumber utcHost (JStr ''43''), c_lng = toNumber utcHost (JStr ''79'')\<rparr>"
    by blast
  with t show ?thesis
    using host_numbers by (simp add: norm_Timed coords_samples truthyOpt_def Number_js_def)
qed

text \<open>
  The claim as stated, coordinates only when both values parse as numbers and never a
  pair holding \<^verbatim>\<open>NaN\<close>, fails on a venue whose latitude is the string \<open>abc\<close>: the string
  is truthy, so the pair is built, and its latitude is \<^verbatim>\<open>NaN\<close>.
\<close>

theorem coords_can_hold_NaN:
  "latitudeOf evBadCoords = Some (JStr ''abc'')
   \<and> \<not> parsesAsNumber utcHost (latitudeOf evBadCoords)
   \<and> coordsOf utcHost evBadCoords = Some \<lparr>c_lat = NaN, c_lng = Fin 10\<rparr>"
  by (simp add: coords_samples parsesAsNumber_def)

text \<open>
  Claim C10, as the code has it. Every debug response and every upstream-failure
  response carries the complete upstream URL, whose \<open>apikey\<close> parameter is the configured
  key. A request with the debug flag gets the debug response when the key is
  configured, the query passes validation, the window resolves and the request is not
  answered from the cache (no fresh entry, or the bypass flag). A request without the
  debug flag whose upstream call answers with a status that is not 2xx gets the failure
  response with the URL, unless reading the error body throws or the status cannot be
  forwarded with a body (304, or a status outside 200 to 599).
\<close>

theorem upstream_url_in_debug_and_failure_bodies:
  "(\<forall>s e u. outcome (GET pf ev qs c) = Returned (Debug s e u) \<longrightarrow>
       (\<exists>key. apiKey ev = Some key \<and> keyParam u = Some (PStr key)))
   \<and> (\<forall>st d u. outcome (GET pf ev qs c) = Returned (UpstreamFailed st d u) \<longrightarrow>
       (\<exists>key. apiKey ev = Some key \<and> keyParam u = Some (PStr key)
          \<and> upstreamCalls (GET pf ev qs c) = [u]))
   \<and> (\<forall>key rq s e. apiKey ev = Some key \<and> key \<noteq> [] \<and> QuerySchema pf qs = Inr rq
         \<and> dateWindow pf (tNew ev) (rq_from rq) (rq_to rq) = Inr (s, e)
         \<and> (\<not> hasFlag qs ''nocache'' \<longrightarrow> freshHit c (keyOf rq s e) (tLookup ev) = None)
       \<longrightarrow> (hasFlag qs ''debug'' \<longrightarrow>
              outcome (GET pf ev qs c) = Returned (Debug s e (buildTmUrl key rq s e)))
          \<and> (\<forall>rep. \<not> hasFlag qs ''debug'' \<and> fetch ev (buildTmUrl key rq s e) = Some rep
                 \<and> \<not> r_ok rep
               \<longrightarrow> outcome (GET pf ev qs c) =
                     (case errorDetails rep of
                        Inl err \<Rightarrow> Threw err
                      | Inr d \<Rightarrow>
                          (case jsonStatusError (status rep) of
                             Some err \<Rightarrow> Threw err
                           | None \<Rightarrow>
                               Returned (UpstreamFailed (status rep) d (buildTmUrl key rq s e))))))"
proof (intro conjI allI impI)
  fix s e u
  assume "outcome (GET pf ev qs c) = Returned (Debug s e u)"
  from GET_Debug_url [OF this]
  show "\<exists>key. apiKey ev = Some key \<and> keyParam u = Some (PStr key)"
    by (auto simp: keyParam_buildTmUrl)
next
  fix st d u
  assume f: "outcome (GET pf ev qs c) = Returned (UpstreamFailed st d u)"
  from GET_UpstreamFailed [OF f] obtain key rq s e where k: "apiKey ev = Some key"
    and g: "GET pf ev qs c = upstream pf ev c (hasFlag qs ''nocache'') (keyOf rq s e) s e
                          (buildTmUrl key rq s e)"
    by blast
  from f g have "u = buildTmUrl key rq s e" by (simp add: upstream_Failed_url)
  with k g show "\<exists>key. apiKey ev = Some key \<and> keyParam u = Some (PStr key)
      \<and> upstreamCalls (GET pf ev qs c) = [u]"
    by (simp add: keyParam_buildTmUrl upstream_calls)
next
  fix key rq s e
  assume a: "apiKey ev = Some key \<and> key \<noteq> [] \<and> QuerySchema pf qs = Inr rq
         \<and> dateWindow pf (tNew ev) (rq_from rq) (rq_to rq) = Inr (s, e)
         \<and> (\<not> hasFlag qs ''nocache'' \<longrightarrow> freshHit c (keyOf rq s e) (tLookup ev) = None)"
  {
    assume "hasFlag qs ''debug''"
    with a show "outcome (GET pf ev qs c) = Returned (Debug s e (buildTmUrl key rq s e))"
      by (simp add: GET_debug)
  }
  fix rep
  assume "\<not> hasFlag qs ''debug'' \<and> fetch ev (buildTmUrl key rq s e) = Some rep \<and> \<not> r_ok rep"
  with a show "outcome (GET pf ev qs c) =
      (case errorDetails rep of
         Inl err \<Rightarrow> Threw err
       | Inr d \<Rightarrow>
           (case jsonStatusError (status rep) of
              Some err \<Rightarrow> Threw err
            | None \<Rightarrow> Returned (UpstreamFailed (status rep) d (buildTmUrl key rq s e))))"
    by (simp add: GET_miss upstream_failed)
qed

text \<open>The July request with the debug flag on an empty cache, and the July request
  against an upstream that answers 401: both bodies hold the URL with the key.\<close>

theorem upstream_url_in_debug_and_failure_bodies_witness:
  "keyParam urlJuly = Some (PStr ''KEY'')
   \<and> outcome (GET utcHost (envAt 0) qsJulyDebug Map.empty)
       = Returned (Debug startJuly (Some endJuly) urlJuly)
   \<and> outcome (GET utcHost envDown qsJuly Map.empty)
       = Returned (UpstreamFailed 401 (DJson (JObj [(''fault'', JStr ''Invalid ApiKey'')])) urlJuly)"
proof -
  have o: "outcome (GET utcHost (envAt 0) qsJulyDebug Map.empty)
       = Returned (Debug startJuly (Some endJuly) urlJuly)"
    "outcome (GET utcHost envDown qsJuly Map.empty)
       = Returned (UpstreamFailed 401 (DJson (JObj [(''fault'', JStr ''Invalid ApiKey'')])) urlJuly)"
    by (simp_all add: GET_July_debug GET_July_down freshHit_def)
  from upstream_url_in_debug_and_failure_bodies [of utcHost "envAt 0" qsJulyDebug Map.empty] o(1)
  have "\<exists>key. apiKey (envAt 0) = Some key \<and> keyParam urlJuly = Some (PStr key)" by simp
  then have "keyParam urlJuly = Some (PStr ''KEY'')" by (simp add: envAt_simps)
  with o show ?thesis by simp
qed

text \<open>
  The claim as stated, the URL in the body of every request with the debug flag, fails
  when the request is answered from the cache: the lookup (lines 297-302) comes before
  the debug hook, and the key does not hold the flag, so the cached data is returned.
\<close>

theorem debug_request_served_from_cache:
  "hasFlag qsJulyDebug ''debug''
   \<and> outcome (GET utcHost (envAt 1000) qsJulyDebug cacheJuly) = Returned (Data dataJuly)"
  by (simp add: flags_July GET_July_hit TTL_MS_def)

end
